theory Spec2Isabelle
  imports Complex_Main "HOL-Library.List_Lexorder" "HOL-Library.Char_ord" "HOL-Library.Sublist"
begin

section \<open>JavaScript values\<close>

text \<open>
  The server (\<^verbatim>\<open>src/script.js\<close>, lines 76--270) works on values parsed from JSON, on
  the \<^verbatim>\<open>undefined\<close> that a read of an absent property yields, and on the one
  function a property read of such a value can yield (\<^verbatim>\<open>pop\<close> of an array, the
  inherited \<^verbatim>\<open>Array.prototype.pop\<close>). A number is a double, held as its exact
  rational value, or \<^verbatim>\<open>NaN\<close> or one of the two infinities (the sign of zero is not
  held). A string is held as the bytes of its UTF-8 encoding, so a character is one to
  four bytes (a lone surrogate, which has no encoding, is left out). An object is an
  association list holding each key once. Writing to the console is not modelled.
\<close>

datatype jsnum = NaN | NegInf | Fin rat | PosInf

datatype jsval =
    JUndefined
  | JNull
  | JBool bool
  | JNum jsnum
  | JStr string
  | JArr "jsval list"
  | JObj "(string \<times> jsval) list"
  | JPopMethod

text \<open>What a \<^verbatim>\<open>throw\<close> or a rejected promise carries.\<close>

datatype js_error =
    TypeError
  | FetchError
  | SyntaxError
  | Error string

text \<open>
  Four built-ins of the runtime are parameters of the model: the parsing of a string as a
  numeric literal (\<^verbatim>\<open>Number("12.5")\<close>), the printing of a number
  (\<^verbatim>\<open>String(12.5)\<close>), the double that a product by 100 is rounded to when the
  product is not known to be exact, and the lowering of a text that has a character
  outside ASCII (the Unicode case mapping). Every theorem below holds for all choices of
  them.
\<close>

record builtins =
  StringToNumber :: "string \<Rightarrow> jsnum"
  NumberToString :: "jsnum \<Rightarrow> string"
  TimesHundred :: "rat \<Rightarrow> jsnum"
  NonAsciiToLowerCase :: "string \<Rightarrow> string"

definition nullish :: "jsval \<Rightarrow> bool" where
  "nullish v = (case v of JUndefined \<Rightarrow> True | JNull \<Rightarrow> True | _ \<Rightarrow> False)"

text \<open>Truthiness, as \<^verbatim>\<open>if (v)\<close>, \<^verbatim>\<open>!v\<close> and \<^verbatim>\<open>v || w\<close> test it.\<close>

fun truthy :: "jsval \<Rightarrow> bool" where
  "truthy JUndefined = False"
| "truthy JNull = False"
| "truthy (JBool b) = b"
| "truthy (JNum NaN) = False"
| "truthy (JNum (Fin r)) = (r \<noteq> 0)"
| "truthy (JNum n) = True"
| "truthy (JStr s) = (s \<noteq> [])"
| "truthy (JArr xs) = True"
| "truthy (JObj kvs) = True"
| "truthy JPopMethod = True"

definition js_or :: "jsval \<Rightarrow> jsval \<Rightarrow> jsval" where
  "js_or a b = (if truthy a then a else b)"

subsection \<open>Strings\<close>

fun join :: "string \<Rightarrow> string list \<Rightarrow> string" where
  "join sep [] = []"
| "join sep [x] = x"
| "join sep (x # y # ys) = x @ sep @ join sep (y # ys)"

definition is_ascii :: "char \<Rightarrow> bool" where
  "is_ascii c = (c < CHR 0x80)"

definition lower_char :: "char \<Rightarrow> char" where
  "lower_char c =
     (case map_of (zip ''ABCDEFGHIJKLMNOPQRSTUVWXYZ'' ''abcdefghijklmnopqrstuvwxyz'') c of
        Some l \<Rightarrow> l
      | None \<Rightarrow> c)"

text \<open>
  \<^verbatim>\<open>s.toLowerCase()\<close>: on a text of ASCII characters the 26 capital letters are
  lowered; any other text is lowered by the runtime's case mapping.
\<close>

definition toLowerCase :: "builtins \<Rightarrow> string \<Rightarrow> string" where
  "toLowerCase rt s = (if list_all is_ascii s then map lower_char s else NonAsciiToLowerCase rt s)"

text \<open>
  The characters of a text: each byte that is not a continuation byte
  (\<^verbatim>\<open>10xxxxxx\<close>) starts a character, which takes the continuation bytes after it.
\<close>

definition is_continuation :: "char \<Rightarrow> bool" where
  "is_continuation c = (CHR 0x80 \<le> c \<and> c \<le> CHR 0xBF)"

function utf8_chars :: "string \<Rightarrow> string list" where
  "utf8_chars [] = []"
| "utf8_chars (c # cs) =
     (c # takeWhile is_continuation cs) # utf8_chars (dropWhile is_continuation cs)"
  by pat_completeness auto

termination utf8_chars
  by (relation "measure length") (simp_all add: length_dropWhile_le le_imp_less_Suc)

text \<open>
  The characters \<^verbatim>\<open>trim\<close> strips, ECMAScript's white space and line terminators:
  U+0009 to U+000D, U+0020, U+00A0, U+1680, U+2000 to U+200A, U+2028, U+2029, U+202F,
  U+205F, U+3000 and U+FEFF.
\<close>

definition white_space :: "string list" where
  "white_space =
     [[CHR 0x09], [CHR 0x0A], [CHR 0x0B], [CHR 0x0C], [CHR 0x0D], [CHR 0x20],
      [CHR 0xC2, CHR 0xA0],
      [CHR 0xE1, CHR 0x9A, CHR 0x80],
      [CHR 0xE2, CHR 0x80, CHR 0x80], [CHR 0xE2, CHR 0x80, CHR 0x81],
      [CHR 0xE2, CHR 0x80, CHR 0x82], [CHR 0xE2, CHR 0x80, CHR 0x83],
      [CHR 0xE2, CHR 0x80, CHR 0x84], [CHR 0xE2, CHR 0x80, CHR 0x85],
      [CHR 0xE2, CHR 0x80, CHR 0x86], [CHR 0xE2, CHR 0x80, CHR 0x87],
      [CHR 0xE2, CHR 0x80, CHR 0x88], [CHR 0xE2, CHR 0x80, CHR 0x89],
      [CHR 0xE2, CHR 0x80, CHR 0x8A],
      [CHR 0xE2, CHR 0x80, CHR 0xA8], [CHR 0xE2, CHR 0x80, CHR 0xA9],
      [CHR 0xE2, CHR 0x80, CHR 0xAF],
      [CHR 0xE2, CHR 0x81, CHR 0x9F],
      [CHR 0xE3, CHR 0x80, CHR 0x80],
      [CHR 0xEF, CHR 0xBB, CHR 0xBF]]"

definition is_white_space :: "string \<Rightarrow> bool" where
  "is_white_space g = (g \<in> set white_space)"

text \<open>\<^verbatim>\<open>s.trim()\<close>: the white space at both ends is dropped.\<close>

definition trim :: "string \<Rightarrow> string" where
  "trim s =
     concat (rev (dropWhile is_white_space (rev (dropWhile is_white_space (utf8_chars s)))))"

text \<open>
  \<^verbatim>\<open>s.length\<close> counts UTF-16 code units: two for a character beyond U+FFFF (four
  bytes, the first at least \<^verbatim>\<open>0xF0\<close>), one for any other.
\<close>

definition code_units :: "string \<Rightarrow> nat" where
  "code_units s =
     sum_list (map (\<lambda>g. if CHR 0xF0 \<le> hd g then 2 else 1) (utf8_chars s))"

fun starts_with :: "string \<Rightarrow> string \<Rightarrow> bool" where
  "starts_with s [] = True"
| "starts_with [] (n # ns) = False"
| "starts_with (c # cs) (n # ns) = (c = n \<and> starts_with cs ns)"

fun str_includes :: "string \<Rightarrow> string \<Rightarrow> bool" where
  "str_includes [] needle = (needle = [])"
| "str_includes (c # cs) needle = (starts_with (c # cs) needle \<or> str_includes cs needle)"

subsection \<open>Property reads\<close>

text \<open>
  \<^verbatim>\<open>v.k\<close> on a value that is neither \<^verbatim>\<open>null\<close> nor \<^verbatim>\<open>undefined\<close>, for the
  property names the server reads as data: \<^verbatim>\<open>location\<close>, \<^verbatim>\<open>current\<close>,
  \<^verbatim>\<open>forecast\<close>, \<^verbatim>\<open>name\<close>, \<^verbatim>\<open>state\<close>, \<^verbatim>\<open>country\<close>, \<^verbatim>\<open>lat\<close>, \<^verbatim>\<open>lon\<close>,
  \<^verbatim>\<open>temp\<close>, \<^verbatim>\<open>feels_like\<close>, \<^verbatim>\<open>humidity\<close>, \<^verbatim>\<open>wind_speed\<close>, \<^verbatim>\<open>description\<close>,
  \<^verbatim>\<open>pop\<close>, \<^verbatim>\<open>day\<close>, \<^verbatim>\<open>weather\<close>, \<^verbatim>\<open>main\<close>, \<^verbatim>\<open>wind\<close>, \<^verbatim>\<open>speed\<close>,
  \<^verbatim>\<open>clouds\<close>, \<^verbatim>\<open>all\<close>, \<^verbatim>\<open>dt\<close>, \<^verbatim>\<open>list\<close>, \<^verbatim>\<open>dt_txt\<close>, \<^verbatim>\<open>choices\<close>,
  \<^verbatim>\<open>message\<close>, \<^verbatim>\<open>content\<close> and \<^verbatim>\<open>length\<close>. A parsed object has its own keys
  only. An array has \<^verbatim>\<open>length\<close> and inherits the method \<^verbatim>\<open>pop\<close>; a string has
  \<^verbatim>\<open>length\<close>; the function \<^verbatim>\<open>pop\<close> has \<^verbatim>\<open>name\<close> and \<^verbatim>\<open>length\<close> (it takes no
  argument); a number or a boolean has none of the names.
\<close>

fun js_prop :: "jsval \<Rightarrow> string \<Rightarrow> jsval" where
  "js_prop (JObj kvs) k = (case map_of kvs k of Some v \<Rightarrow> v | None \<Rightarrow> JUndefined)"
| "js_prop (JArr xs) k =
     (if k = ''length'' then JNum (Fin (of_nat (length xs)))
      else if k = ''pop'' then JPopMethod
      else JUndefined)"
| "js_prop (JStr s) k =
     (if k = ''length'' then JNum (Fin (of_nat (code_units s))) else JUndefined)"
| "js_prop JPopMethod k =
     (if k = ''length'' then JNum (Fin 0)
      else if k = ''name'' then JStr ''pop''
      else JUndefined)"
| "js_prop v k = JUndefined"

text \<open>\<^verbatim>\<open>v.k\<close>: a TypeError on \<^verbatim>\<open>null\<close> and \<^verbatim>\<open>undefined\<close>.\<close>

definition get :: "jsval \<Rightarrow> string \<Rightarrow> js_error + jsval" where
  "get v k = (if nullish v then Inl TypeError else Inr (js_prop v k))"

text \<open>\<^verbatim>\<open>v?.k\<close>: \<^verbatim>\<open>undefined\<close> on \<^verbatim>\<open>null\<close> and \<^verbatim>\<open>undefined\<close>.\<close>

definition opt_get :: "jsval \<Rightarrow> string \<Rightarrow> jsval" where
  "opt_get v k = (if nullish v then JUndefined else js_prop v k)"

text \<open>
  \<^verbatim>\<open>v?.[0]\<close>: the first element of an array, the first character of a string (of a
  character beyond U+FFFF the first code unit alone, a lone surrogate, for which the
  character stands here: it is a non-empty string without any of the properties
  above), the key \<^verbatim>\<open>0\<close> of an object.
\<close>

fun opt_at0 :: "jsval \<Rightarrow> jsval" where
  "opt_at0 (JArr []) = JUndefined"
| "opt_at0 (JArr (x # xs)) = x"
| "opt_at0 (JStr s) = (case utf8_chars s of [] \<Rightarrow> JUndefined | g # gs \<Rightarrow> JStr g)"
| "opt_at0 (JObj kvs) = js_prop (JObj kvs) ''0''"
| "opt_at0 v = JUndefined"


definition and_then :: "js_error + 'a \<Rightarrow> ('a \<Rightarrow> js_error + 'b) \<Rightarrow> js_error + 'b" where
  "and_then m f = (case m of Inl e \<Rightarrow> Inl e | Inr x \<Rightarrow> f x)"

subsection \<open>Coercions\<close>

text \<open>
  \<^verbatim>\<open>String(v)\<close> and a template literal's \<^verbatim>\<open>${v}\<close>. A parsed array prints as its
  elements joined by commas (\<^verbatim>\<open>null\<close> and \<^verbatim>\<open>undefined\<close> elements as the empty
  string); a parsed object prints as \<^verbatim>\<open>[object Object]\<close>, unless it has a key
  \<^verbatim>\<open>toString\<close> of its own, which shadows the inherited method with a value that is
  not callable: then the conversion throws.
\<close>

fun ToString :: "builtins \<Rightarrow> jsval \<Rightarrow> js_error + string"
  and join_elements :: "builtins \<Rightarrow> jsval list \<Rightarrow> js_error + string list" where
  "ToString rt JUndefined = Inr ''undefined''"
| "ToString rt JNull = Inr ''null''"
| "ToString rt (JBool b) = Inr (if b then ''true'' else ''false'')"
| "ToString rt (JNum n) = Inr (NumberToString rt n)"
| "ToString rt (JStr s) = Inr s"
| "ToString rt (JArr xs) =
     (case join_elements rt xs of Inl e \<Rightarrow> Inl e | Inr ss \<Rightarrow> Inr (join '','' ss))"
| "ToString rt (JObj kvs) =
     (if ''toString'' \<in> set (map fst kvs) then Inl TypeError else Inr ''[object Object]'')"
| "ToString rt JPopMethod = Inr ''function pop() { [native code] }''"
| "join_elements rt [] = Inr []"
| "join_elements rt (JUndefined # xs) =
     (case join_elements rt xs of Inl e \<Rightarrow> Inl e | Inr ss \<Rightarrow> Inr ([] # ss))"
| "join_elements rt (JNull # xs) =
     (case join_elements rt xs of Inl e \<Rightarrow> Inl e | Inr ss \<Rightarrow> Inr ([] # ss))"
| "join_elements rt (x # xs) =
     (case ToString rt x of
        Inl e \<Rightarrow> Inl e
      | Inr s \<Rightarrow> (case join_elements rt xs of Inl e \<Rightarrow> Inl e | Inr ss \<Rightarrow> Inr (s # ss)))"

text \<open>\<^verbatim>\<open>Number(v)\<close>, and the operand conversion of \<^verbatim>\<open>v * 100\<close> and \<^verbatim>\<open>Math.round(v)\<close>.\<close>

fun ToNumber :: "builtins \<Rightarrow> jsval \<Rightarrow> js_error + jsnum" where
  "ToNumber rt JUndefined = Inr NaN"
| "ToNumber rt JNull = Inr (Fin 0)"
| "ToNumber rt (JBool b) = Inr (Fin (if b then 1 else 0))"
| "ToNumber rt (JNum n) = Inr n"
| "ToNumber rt (JStr s) = Inr (StringToNumber rt s)"
| "ToNumber rt v =
     (case ToString rt v of Inl e \<Rightarrow> Inl e | Inr s \<Rightarrow> Inr (StringToNumber rt s))"

text \<open>\<^verbatim>\<open>n >= c\<close> and \<^verbatim>\<open>n <= c\<close> against a finite constant; false on \<^verbatim>\<open>NaN\<close>.\<close>

fun num_ge :: "jsnum \<Rightarrow> rat \<Rightarrow> bool" where
  "num_ge (Fin r) c = (c \<le> r)"
| "num_ge PosInf c = True"
| "num_ge n c = False"

fun num_le :: "jsnum \<Rightarrow> rat \<Rightarrow> bool" where
  "num_le (Fin r) c = (r \<le> c)"
| "num_le NegInf c = True"
| "num_le n c = False"

text \<open>
  \<^verbatim>\<open>n * 100\<close>: the double nearest to the product. A multiple of a quarter whose
  product is at most \<^verbatim>\<open>2 ** 53\<close> in size has its product among the doubles; any
  other product is rounded by the runtime.
\<close>

fun times100 :: "builtins \<Rightarrow> jsnum \<Rightarrow> jsnum" where
  "times100 rt (Fin r) =
     (if of_int \<lfloor>4 * r\<rfloor> = 4 * r \<and> \<bar>r * 100\<bar> \<le> 2 ^ 53 then Fin (r * 100)
      else TimesHundred rt r)"
| "times100 rt n = n"

text \<open>\<^verbatim>\<open>Math.round\<close>: the nearest integer, a tie going up.\<close>

fun Math_round :: "jsnum \<Rightarrow> jsnum" where
  "Math_round (Fin r) = Fin (of_int \<lfloor>r + 1 / 2\<rfloor>)"
| "Math_round n = n"

section \<open>The rule engine (ruleBasedAdvice, lines 183--207)\<close>

text \<open>The six constants the function computes first (lines 185--190).\<close>

record readings =
  t :: jsnum
  feels :: jsnum
  hum :: jsnum
  wind :: jsnum
  desc :: string
  pop :: jsnum

definition rule_readings :: "builtins \<Rightarrow> jsval \<Rightarrow> jsval \<Rightarrow> js_error + readings" where
  "rule_readings rt current forecast =
     and_then (and_then (get current ''temp'') (ToNumber rt)) (\<lambda>t.
     and_then (and_then (get current ''feels_like'') (ToNumber rt)) (\<lambda>feels.
     and_then (and_then (get current ''humidity'')
                 (\<lambda>h. ToNumber rt (js_or h (JNum (Fin 0))))) (\<lambda>hum.
     and_then (and_then (get current ''wind_speed'')
                 (\<lambda>w. ToNumber rt (js_or w (JNum (Fin 0))))) (\<lambda>wind.
     and_then (and_then (get current ''description'')
                 (\<lambda>d. ToString rt (js_or d (JStr [])))) (\<lambda>s.
     and_then (ToNumber rt (js_or (opt_get (opt_at0 forecast) ''pop'') (JNum (Fin 0)))) (\<lambda>p.
     Inr \<lparr> t = t, feels = feels, hum = hum, wind = wind, desc = toLowerCase rt s,
           pop = Math_round (times100 rt p) \<rparr>))))))"

definition tip_hot :: string where
  "tip_hot = ''It'' @ [CHR 0xE2, CHR 0x80, CHR 0x99]
     @ ''s hot; wear light cotton and drink plenty of water.''"

definition tip_cool :: string where
  "tip_cool = ''Cool weather; wear a light jacket or sweater.''"

definition tip_pleasant :: string where
  "tip_pleasant = ''Pleasant temperature; ideal for outdoor tasks.''"

definition tip_humid :: string where
  "tip_humid = ''High humidity; choose breathable clothes and stay hydrated.''"

definition tip_breezy :: string where
  "tip_breezy = ''Breezy; secure loose items and avoid lightweight umbrellas.''"

definition tip_umbrella :: string where
  "tip_umbrella = ''Carry an umbrella; showers expected.''"

definition tip_air :: string where
  "tip_air = ''Air quality might be low; consider a mask if sensitive.''"

definition tip_clear :: string where
  "tip_clear = ''Clear skies; good day for a walk or outing.''"

definition tip_generic :: string where
  "tip_generic = ''Plan your day with basic precautions.''"

text \<open>The pushes of lines 192--201, in their order.\<close>

definition pushed_tips :: "readings \<Rightarrow> string list" where
  "pushed_tips r =
     (if t r \<noteq> NaN
      then [if num_ge (t r) 32 \<or> num_ge (feels r) 34 then tip_hot
            else if num_le (t r) 15 then tip_cool
            else tip_pleasant]
      else [])
     @ (if num_ge (hum r) 70 then [tip_humid] else [])
     @ (if num_ge (wind r) 8 then [tip_breezy] else [])
     @ (if str_includes (desc r) ''rain'' \<or> num_ge (pop r) 40 then [tip_umbrella] else [])
     @ (if str_includes (desc r) ''haze'' \<or> str_includes (desc r) ''smoke'' then [tip_air] else [])
     @ (if str_includes (desc r) ''clear'' then [tip_clear] else [])"

text \<open>Lines 203--204: the list that is then formatted.\<close>

definition sliced_tips :: "readings \<Rightarrow> string list" where
  "sliced_tips r = take 4 (if pushed_tips r \<noteq> [] then pushed_tips r else [tip_generic])"

definition rule_tips :: "builtins \<Rightarrow> jsval \<Rightarrow> jsval \<Rightarrow> js_error + string list" where
  "rule_tips rt current forecast =
     and_then (rule_readings rt current forecast) (\<lambda>r. Inr (sliced_tips r))"

text \<open>Lines 205--206: each tip behind a dash, the lines joined by a newline.\<close>

definition format_tips :: "string list \<Rightarrow> string" where
  "format_tips tips = join [CHR 0x0A] (map (\<lambda>t. ''- '' @ t) tips)"

definition ruleBasedAdvice :: "builtins \<Rightarrow> jsval \<Rightarrow> jsval \<Rightarrow> js_error + string" where
  "ruleBasedAdvice rt current forecast =
     and_then (rule_tips rt current forecast) (\<lambda>tips. Inr (format_tips tips))"

text \<open>The order in which lines 193--201 can push a tip.\<close>

definition decision_table :: "string list" where
  "decision_table =
     [tip_hot, tip_cool, tip_pleasant, tip_humid, tip_breezy, tip_umbrella, tip_air, tip_clear]"

section \<open>The advice route (POST /api/ai-advice, lines 178--263)\<close>


text \<open>What \<^verbatim>\<open>fetch\<close> resolves to: the status flag and the two ways of reading the body.\<close>

record fetch_response =
  resp_ok :: bool
  resp_text :: "js_error + string"
  resp_json :: "js_error + jsval"

text \<open>What the server sends: \<^verbatim>\<open>res.status(n).json(v)\<close>; \<^verbatim>\<open>res.json(v)\<close> sends 200.\<close>

record http_response =
  status :: nat
  body :: jsval

definition res_json :: "jsval \<Rightarrow> http_response" where
  "res_json v = \<lparr> status = 200, body = v \<rparr>"

definition res_status_json :: "nat \<Rightarrow> jsval \<Rightarrow> http_response" where
  "res_status_json n v = \<lparr> status = n, body = v \<rparr>"














section \<open>The cache (lines 93--107)\<close>

record cache_entry =
  data :: jsval
  ts :: int

type_synonym cache = "string \<rightharpoonup> cache_entry"

definition cacheTTLms :: int where
  "cacheTTLms = 5 * 60 * 1000"

text \<open>
  \<open>now\<close> is what \<^verbatim>\<open>Date.now()\<close> returns during the call. The result is the pair of
  the returned value (\<^verbatim>\<open>null\<close> for a miss) and the cache afterwards.
\<close>

definition getCache :: "string \<Rightarrow> int \<Rightarrow> cache \<Rightarrow> jsval \<times> cache" where
  "getCache key now c =
     (case c key of
        None \<Rightarrow> (JNull, c)
      | Some hit \<Rightarrow>
          if now - ts hit > cacheTTLms then (JNull, c(key := None))
          else (data hit, c))"

definition setCache :: "string \<Rightarrow> jsval \<Rightarrow> int \<Rightarrow> cache \<Rightarrow> cache" where
  "setCache key d now c = c(key \<mapsto> \<lparr> data = d, ts = now \<rparr>)"

section \<open>The weather route (GET /api/weather, lines 112--173)\<close>

text \<open>
  The three upstream requests, each named by what the handler puts into its URL: the
  city, or the latitude and longitude as the template literal prints them (the
  credential, the same in every URL, is left out).
\<close>

datatype upstream_call =
    Geocode string
  | Current string string
  | Forecast string string

text \<open>Line 114: \<^verbatim>\<open>(req.query.city || "").trim()\<close>; only a string has the method.\<close>

definition city_param :: "jsval \<Rightarrow> js_error + string" where
  "city_param q = (case js_or q (JStr []) of JStr s \<Rightarrow> Inr (trim s) | _ \<Rightarrow> Inl TypeError)"

definition cacheKey :: "builtins \<Rightarrow> string \<Rightarrow> string" where
  "cacheKey rt city = ''wx:'' @ toLowerCase rt city"

text \<open>Lines 123--125: the geocoding request and its parsed body.\<close>

definition geocode ::
  "(upstream_call \<Rightarrow> js_error + fetch_response) \<Rightarrow> string \<Rightarrow> js_error + jsval" where
  "geocode fetch city =
     and_then (fetch (Geocode city)) (\<lambda>geoResp.
     if \<not> resp_ok geoResp then Inl (Error ''Failed geocoding'') else resp_json geoResp)"

text \<open>
  Line 128 and the two template literals of lines 131--132: the first match is
  destructured, and its latitude and longitude are printed into the URLs.
\<close>

definition coordinates :: "builtins \<Rightarrow> jsval \<Rightarrow> js_error + string \<times> string" where
  "coordinates rt geo =
     and_then (get (opt_at0 geo) ''lat'') (\<lambda>lat.
     and_then (ToString rt lat) (\<lambda>la.
     and_then (ToString rt (js_prop (opt_at0 geo) ''lon'')) (\<lambda>lo.
     Inr (la, lo))))"

text \<open>Lines 134--138: both requests are issued, both must succeed, both bodies are parsed.\<close>

definition fetch_weather ::
  "(upstream_call \<Rightarrow> js_error + fetch_response) \<Rightarrow> string \<Rightarrow> string
     \<Rightarrow> js_error + jsval \<times> jsval" where
  "fetch_weather fetch la lo =
     and_then (fetch (Current la lo)) (\<lambda>curResp.
     and_then (fetch (Forecast la lo)) (\<lambda>fcResp.
     if \<not> resp_ok curResp \<or> \<not> resp_ok fcResp then Inl (Error ''Weather fetch failed'')
     else
       and_then (resp_json curResp) (\<lambda>current.
       and_then (resp_json fcResp) (\<lambda>forecast.
       Inr (current, forecast)))))"

text \<open>Line 141.\<close>

definition normalized_location :: "jsval \<Rightarrow> jsval" where
  "normalized_location g =
     JObj [(''name'', js_prop g ''name''),
           (''state'', js_or (js_prop g ''state'') (JStr [])),
           (''country'', js_prop g ''country''),
           (''lat'', js_prop g ''lat''),
           (''lon'', js_prop g ''lon'')]"

text \<open>Lines 142--150.\<close>

definition normalized_current :: "jsval \<Rightarrow> js_error + jsval" where
  "normalized_current current =
     and_then (get current ''weather'') (\<lambda>weather.
     Inr (JObj
       [(''description'', js_or (opt_get (opt_at0 weather) ''description'') (JStr [])),
        (''temp'', opt_get (js_prop current ''main'') ''temp''),
        (''feels_like'', opt_get (js_prop current ''main'') ''feels_like''),
        (''humidity'', opt_get (js_prop current ''main'') ''humidity''),
        (''wind_speed'', opt_get (js_prop current ''wind'') ''speed''),
        (''clouds'', opt_get (js_prop current ''clouds'') ''all''),
        (''dt'', js_prop current ''dt'')]))"

text \<open>\<^verbatim>\<open>s.split(" ")[0]\<close>: the text before the first space.\<close>

definition split_first :: "string \<Rightarrow> string" where
  "split_first s = takeWhile (\<lambda>c. c \<noteq> CHR '' '') s"

text \<open>Line 154: \<^verbatim>\<open>days.find(d => d.day === day)\<close> finds something.\<close>

definition has_day :: "jsval list \<Rightarrow> string \<Rightarrow> bool" where
  "has_day days day = list_ex (\<lambda>d. js_prop d ''day'' = JStr day) days"

text \<open>Lines 155--160: the object pushed for an item.\<close>

definition forecast_entry :: "jsval \<Rightarrow> string \<Rightarrow> jsval" where
  "forecast_entry item day =
     JObj [(''day'', JStr day),
           (''temp'', opt_get (js_prop item ''main'') ''temp''),
           (''pop'', js_prop item ''pop''),
           (''description'',
              js_or (opt_get (opt_at0 (js_prop item ''weather'')) ''description'') (JStr []))]"

text \<open>The callback of \<^verbatim>\<open>reduce\<close> (lines 152--163); only a string has \<^verbatim>\<open>split\<close>.\<close>

definition reduce_step :: "jsval list \<Rightarrow> jsval \<Rightarrow> js_error + jsval list" where
  "reduce_step days item =
     and_then (get item ''dt_txt'') (\<lambda>dt_txt.
     case dt_txt of
       JStr s \<Rightarrow>
         Inr (if \<not> has_day days (split_first s)
              then days @ [forecast_entry item (split_first s)]
              else days)
     | _ \<Rightarrow> Inl TypeError)"

fun reduce_days :: "jsval list \<Rightarrow> jsval list \<Rightarrow> js_error + jsval list" where
  "reduce_days days [] = Inr days"
| "reduce_days days (item # items) =
     (case reduce_step days item of
        Inl e \<Rightarrow> Inl e
      | Inr days' \<Rightarrow> reduce_days days' items)"

text \<open>Lines 151--164: \<^verbatim>\<open>forecast.list.reduce(..., []).slice(0, 5)\<close>; only an array has
  \<^verbatim>\<open>reduce\<close>.\<close>

definition normalized_forecast :: "jsval \<Rightarrow> js_error + jsval list" where
  "normalized_forecast forecast =
     and_then (get forecast ''list'') (\<lambda>l.
     case l of
       JArr items \<Rightarrow> and_then (reduce_days [] items) (\<lambda>days. Inr (take 5 days))
     | _ \<Rightarrow> Inl TypeError)"

text \<open>Lines 140--165.\<close>

definition normalize :: "jsval \<Rightarrow> jsval \<Rightarrow> jsval \<Rightarrow> js_error + jsval" where
  "normalize geo current forecast =
     and_then (normalized_current current) (\<lambda>cur.
     and_then (normalized_forecast forecast) (\<lambda>days.
     Inr (JObj [(''location'', normalized_location (opt_at0 geo)),
                (''current'', cur),
                (''forecast'', JArr days)])))"

definition error_body :: "string \<Rightarrow> jsval" where
  "error_body msg = JObj [(''error'', JStr msg)]"

definition server_error :: http_response where
  "server_error = res_status_json 500 (error_body ''Server error fetching weather'')"

text \<open>
  The handler runs in two parts, since it waits for the upstream services and other
  requests are served while it waits. The first part (lines 114--119) runs when the
  request arrives: \<open>q\<close> is \<^verbatim>\<open>req.query.city\<close>, \<open>t_get\<close> is what \<^verbatim>\<open>Date.now()\<close>
  returns inside \<^verbatim>\<open>getCache\<close>, \<open>c\<close> is the cache at that moment. It answers the
  request, or goes on to ask the upstream services about \<open>city\<close>.
\<close>

datatype lookup =
    Answered http_response
  | Awaiting string

definition weather_begin :: "builtins \<Rightarrow> jsval \<Rightarrow> int \<Rightarrow> cache \<Rightarrow> lookup \<times> cache" where
  "weather_begin rt q t_get c =
     (case city_param q of
        Inl e \<Rightarrow> (Answered server_error, c)
      | Inr city \<Rightarrow>
          if city = []
          then (Answered (res_status_json 400 (error_body ''city is required'')), c)
          else
            (case getCache (cacheKey rt city) t_get c of (cached, c1) \<Rightarrow>
               if truthy cached then (Answered (res_json cached), c1)
               else (Awaiting city, c1)))"

text \<open>
  The second part (lines 121--168): the upstream requests and, once they have answered,
  the store. \<open>t_set\<close> is what \<^verbatim>\<open>Date.now()\<close> returns inside \<^verbatim>\<open>setCache\<close> and \<open>c\<close>
  is the cache at that moment, the only one at which this part touches the cache. The
  result is the response, the cache afterwards, and the upstream requests issued, in
  order. Every exception ends in the \<^verbatim>\<open>catch\<close> of lines 169--172.
\<close>

definition weather_resume ::
  "builtins \<Rightarrow> (upstream_call \<Rightarrow> js_error + fetch_response) \<Rightarrow> string \<Rightarrow> int \<Rightarrow> cache
     \<Rightarrow> http_response \<times> cache \<times> upstream_call list" where
  "weather_resume rt fetch city t_set c =
     (case geocode fetch city of
        Inl e \<Rightarrow> (server_error, c, [Geocode city])
      | Inr geo \<Rightarrow>
          if \<not> truthy (opt_get geo ''length'')
          then (res_status_json 404 (error_body ''City not found''), c, [Geocode city])
          else
            (case coordinates rt geo of
               Inl e \<Rightarrow> (server_error, c, [Geocode city])
             | Inr (la, lo) \<Rightarrow>
                 (case and_then (fetch_weather fetch la lo)
                         (\<lambda>(current, forecast). normalize geo current forecast) of
                    Inl e \<Rightarrow> (server_error, c, [Geocode city, Current la lo, Forecast la lo])
                  | Inr normalized \<Rightarrow>
                      (res_json normalized,
                       setCache (cacheKey rt city) normalized t_set c,
                       [Geocode city, Current la lo, Forecast la lo]))))"

text \<open>
  The route when no other request is served while the handler waits: the second part
  finds the cache as the first part left it.
\<close>

definition weather_route ::
  "builtins \<Rightarrow> (upstream_call \<Rightarrow> js_error + fetch_response) \<Rightarrow> jsval \<Rightarrow> int \<Rightarrow> int \<Rightarrow> cache
     \<Rightarrow> http_response \<times> cache \<times> upstream_call list" where
  "weather_route rt fetch q t_get t_set c =
     (case weather_begin rt q t_get c of
        (Answered r, c1) \<Rightarrow> (r, c1, [])
      | (Awaiting city, c1) \<Rightarrow> weather_resume rt fetch city t_set c1)"

section \<open>Notions of the specification\<close>

text \<open>
  The forecast service's timestamps have the form \<^verbatim>\<open>YYYY-MM-DD HH:MM:SS\<close>. For texts
  of this form the lexicographic order of strings is the chronological order, so
  ``chronologically ordered'' is \<open>sorted\<close> on the timestamps and ``ascending date'' is
  \<open>sorted_wrt (<)\<close> on the dates.
\<close>

definition is_digit :: "char \<Rightarrow> bool" where
  "is_digit c = (c \<in> set ''0123456789'')"

fun is_timestamp :: "string \<Rightarrow> bool" where
  "is_timestamp [y1, y2, y3, y4, h1, m1, m2, h2, d1, d2, sp, hh1, hh2, c1, mi1, mi2, c2, s1, s2] =
     (list_all is_digit [y1, y2, y3, y4, m1, m2, d1, d2, hh1, hh2, mi1, mi2, s1, s2]
      \<and> h1 = CHR ''-'' \<and> h2 = CHR ''-'' \<and> sp = CHR '' '' \<and> c1 = CHR '':'' \<and> c2 = CHR '':'')"
| "is_timestamp s = False"

text \<open>The timestamp of an upstream entry, and its date as the handler cuts it out.\<close>

definition dt_txt_of :: "jsval \<Rightarrow> string" where
  "dt_txt_of item = (case js_prop item ''dt_txt'' of JStr s \<Rightarrow> s | _ \<Rightarrow> [])"

definition date_of :: "jsval \<Rightarrow> string" where
  "date_of item = split_first (dt_txt_of item)"

text \<open>An upstream entry that carries a timestamp of the form above.\<close>

definition timestamped :: "jsval \<Rightarrow> bool" where
  "timestamped item =
     (\<not> nullish item \<and> js_prop item ''dt_txt'' = JStr (dt_txt_of item)
      \<and> is_timestamp (dt_txt_of item))"

text \<open>The \<^verbatim>\<open>day\<close> of a normalized entry, and what the handler makes of an upstream entry.\<close>

definition day_of :: "jsval \<Rightarrow> string" where
  "day_of d = (case js_prop d ''day'' of JStr s \<Rightarrow> s | _ \<Rightarrow> [])"

definition entry_of :: "jsval \<Rightarrow> jsval" where
  "entry_of item = forecast_entry item (date_of item)"

text \<open>
  The specification's ``keep only the FIRST entry encountered per date'', written down
  independently of the handler: the entries whose date is not among the dates \<open>seen\<close>
  before them.
\<close>

fun first_of_each_date :: "string list \<Rightarrow> jsval list \<Rightarrow> jsval list" where
  "first_of_each_date seen [] = []"
| "first_of_each_date seen (item # items) =
     (if date_of item \<in> set seen then first_of_each_date seen items
      else item # first_of_each_date (date_of item # seen) items)"

text \<open>A list of normalized entries: each has a string under \<^verbatim>\<open>day\<close>.\<close>

definition entries :: "jsval list \<Rightarrow> bool" where
  "entries acc = list_all (\<lambda>d. js_prop d ''day'' = JStr (day_of d)) acc"

text \<open>An upstream request fails at the transport level (the promise rejects) or at the
  HTTP level (the status is not a success).\<close>

definition call_failed :: "(upstream_call \<Rightarrow> js_error + fetch_response) \<Rightarrow> upstream_call \<Rightarrow> bool" where
  "call_failed fetch call = (case fetch call of Inl e \<Rightarrow> True | Inr resp \<Rightarrow> \<not> resp_ok resp)"

text \<open>
  A forecast payload the handler can walk through: it has a \<^verbatim>\<open>list\<close> that is an array,
  and every entry of it is an object (or another value that is neither \<^verbatim>\<open>null\<close> nor
  \<^verbatim>\<open>undefined\<close>) with a string under \<^verbatim>\<open>dt_txt\<close>.
\<close>

definition has_dt_txt :: "jsval \<Rightarrow> bool" where
  "has_dt_txt item =
     (\<not> nullish item \<and> (case js_prop item ''dt_txt'' of JStr s \<Rightarrow> True | _ \<Rightarrow> False))"

definition has_forecast_list :: "jsval \<Rightarrow> bool" where
  "has_forecast_list forecast =
     (\<not> nullish forecast
      \<and> (case js_prop forecast ''list'' of
            JArr items \<Rightarrow> list_all has_dt_txt items
          | _ \<Rightarrow> False))"

text \<open>The keys of an object, in order.\<close>

definition object_keys :: "jsval \<Rightarrow> string list" where
  "object_keys v = (case v of JObj kvs \<Rightarrow> map fst kvs | _ \<Rightarrow> [])"

text \<open>The tips of an advice text are its lines: \<^verbatim>\<open>a.split("\n")\<close>.\<close>

fun split_lines :: "string \<Rightarrow> string list" where
  "split_lines [] = [[]]"
| "split_lines (c # cs) =
     (if c = CHR 0x0A then [] # split_lines cs
      else (case split_lines cs of l # ls \<Rightarrow> (c # l) # ls | [] \<Rightarrow> [[c]]))"


section \<open>Worked examples\<close>

text \<open>The input of the specification's rule-engine example.\<close>

definition example_current :: jsval where
  "example_current =
     JObj [(''temp'', JNum (Fin 36)), (''humidity'', JNum (Fin 80)),
           (''wind_speed'', JNum (Fin 10)), (''description'', JStr ''light rain'')]"

definition example_forecast :: jsval where
  "example_forecast = JArr [JObj [(''pop'', JNum (Fin (1 / 2)))]]"

text \<open>The same with haze added: five conditions hold.\<close>

definition hazy_current :: jsval where
  "hazy_current =
     JObj [(''temp'', JNum (Fin 36)), (''humidity'', JNum (Fin 80)),
           (''wind_speed'', JNum (Fin 10)), (''description'', JStr ''Light Rain, Haze'')]"

text \<open>Seven three-hourly entries over six dates.\<close>

definition example_item :: "string \<Rightarrow> rat \<Rightarrow> jsval" where
  "example_item s p =
     JObj [(''dt_txt'', JStr s),
           (''main'', JObj [(''temp'', JNum (Fin 20))]),
           (''pop'', JNum (Fin p)),
           (''weather'', JArr [JObj [(''description'', JStr ''clear sky'')]])]"

definition example_items :: "jsval list" where
  "example_items =
     [example_item ''2024-05-01 21:00:00'' 0,
      example_item ''2024-05-02 00:00:00'' (1 / 2),
      example_item ''2024-05-02 03:00:00'' 1,
      example_item ''2024-05-03 00:00:00'' 0,
      example_item ''2024-05-04 00:00:00'' 0,
      example_item ''2024-05-05 00:00:00'' 0,
      example_item ''2024-05-06 00:00:00'' 0]"

text \<open>
  A runtime for the closed examples: it prints natural numbers in decimal, as the
  JavaScript runtime does for the small ones the examples use, and reads no string as a
  number (no example converts one); no example has a product by 100 that is rounded or
  lowers a text with a character outside ASCII.
\<close>

fun decimal :: "nat \<Rightarrow> string" where
  "decimal n =
     (if n < 10 then [''0123456789'' ! n]
      else decimal (n div 10) @ [''0123456789'' ! (n mod 10)])"

definition example_builtins :: builtins where
  "example_builtins =
     \<lparr> StringToNumber = (\<lambda>s. NaN),
       NumberToString =
         (\<lambda>n. case n of
                Fin r \<Rightarrow> if r = of_nat (nat \<lfloor>r\<rfloor>) then decimal (nat \<lfloor>r\<rfloor>) else ''NaN''
              | _ \<Rightarrow> ''NaN''),
       TimesHundred = (\<lambda>r. Fin (r * 100)),
       NonAsciiToLowerCase = (\<lambda>s. s) \<rparr>"

text \<open>Upstream payloads for a request for Paris.\<close>

definition example_geo :: jsval where
  "example_geo =
     JArr [JObj [(''name'', JStr ''Paris''), (''lat'', JNum (Fin 48)), (''lon'', JNum (Fin 2)),
                 (''country'', JStr ''FR'')]]"

definition example_weather :: jsval where
  "example_weather =
     JObj [(''weather'', JArr [JObj [(''description'', JStr ''clear sky'')]]),
           (''main'', JObj [(''temp'', JNum (Fin 21)), (''feels_like'', JNum (Fin 20)),
                            (''humidity'', JNum (Fin 40))]),
           (''wind'', JObj [(''speed'', JNum (Fin 3))]),
           (''dt'', JNum (Fin 1714600000))]"

text \<open>A response with a success status and a body that parses to \<open>v\<close> (its text, which
  the weather route never reads, is left empty).\<close>

definition json_response :: "jsval \<Rightarrow> fetch_response" where
  "json_response v = \<lparr> resp_ok = True, resp_text = Inr [], resp_json = Inr v \<rparr>"



text \<open>Upstream services that answer every request successfully, the forecast service
  with the payload \<open>forecast\<close>.\<close>

definition example_upstream :: "jsval \<Rightarrow> upstream_call \<Rightarrow> js_error + fetch_response" where
  "example_upstream forecast call =
     Inr (json_response
       (case call of
          Geocode city \<Rightarrow> example_geo
        | Current la lo \<Rightarrow> example_weather
        | Forecast la lo \<Rightarrow> forecast))"

text \<open>Upstream services that are unreachable.\<close>

definition unreachable :: "upstream_call \<Rightarrow> js_error + fetch_response" where
  "unreachable call = Inl FetchError"

text \<open>A forecast body without a \<^verbatim>\<open>list\<close>.\<close>

definition listless_forecast :: jsval where
  "listless_forecast = JObj [(''cod'', JStr ''200''), (''message'', JNum (Fin 0))]"

text \<open>The services with the seven entries above as the forecast.\<close>

definition example_services :: "upstream_call \<Rightarrow> js_error + fetch_response" where
  "example_services = example_upstream (JObj [(''list'', JArr example_items)])"

text \<open>A first request for Paris, on an empty cache, answered by the example services.\<close>

definition example_first :: "http_response \<times> cache \<times> upstream_call list" where
  "example_first =
     weather_route example_builtins example_services (JStr ''Paris '') 1000 1200 Map.empty"



section \<open>Basic facts\<close>

lemma and_then_Inr_iff: "and_then m f = Inr y \<longleftrightarrow> (\<exists>x. m = Inr x \<and> f x = Inr y)"
  by (cases m) (simp_all add: and_then_def)

lemma get_Inr_iff: "get v k = Inr x \<longleftrightarrow> \<not> nullish v \<and> x = js_prop v k"
  by (auto simp: get_def)

lemma floor_numeral_div_rat [simp]:
  "\<lfloor>numeral a / numeral b :: rat\<rfloor> = numeral a div numeral b"
  using floor_divide_of_int_eq [of "numeral a" "numeral b", where ?'a = rat] by simp

lemma floor_one_div_rat [simp]: "\<lfloor>1 / numeral b :: rat\<rfloor> = 1 div numeral b"
  using floor_divide_of_int_eq [of 1 "numeral b", where ?'a = rat] by simp

section \<open>Strings\<close>

lemmas trim_eval = trim_def is_white_space_def white_space_def is_continuation_def
  less_eq_char_def


lemma concat_utf8_chars: "concat (utf8_chars s) = s"
  by (induction s rule: utf8_chars.induct) simp_all


















lemma split_lines_line: "CHR 0x0A \<notin> set x \<Longrightarrow> split_lines x = [x]"
  by (induction x) auto

lemma split_lines_append:
  "CHR 0x0A \<notin> set x \<Longrightarrow> split_lines (x @ CHR 0x0A # rest) = x # split_lines rest"
  by (induction x) auto

lemma split_lines_join:
  "xs \<noteq> [] \<Longrightarrow> \<forall>x\<in>set xs. CHR 0x0A \<notin> set x
     \<Longrightarrow> split_lines (join [CHR 0x0A] xs) = xs"
  by (induction "[CHR 0x0A]" xs rule: join.induct)
    (simp_all add: split_lines_line split_lines_append)

section \<open>The rule engine\<close>

lemmas tip_defs = tip_hot_def tip_cool_def tip_pleasant_def tip_humid_def tip_breezy_def
  tip_umbrella_def tip_air_def tip_clear_def tip_generic_def

lemmas example_eval = rule_tips_def rule_readings_def and_then_def get_def nullish_def
  js_or_def opt_get_def sliced_tips_def pushed_tips_def toLowerCase_def lower_char_def
  is_ascii_def less_char_def

lemma rule_readings_fields:
  assumes "rule_readings rt current forecast = Inr r"
  shows "\<not> nullish current"
    and "ToNumber rt (js_prop current ''temp'') = Inr (t r)"
    and "ToNumber rt (js_prop current ''feels_like'') = Inr (feels r)"
    and "ToNumber rt (js_or (js_prop current ''humidity'') (JNum (Fin 0))) = Inr (hum r)"
    and "ToNumber rt (js_or (js_prop current ''wind_speed'') (JNum (Fin 0))) = Inr (wind r)"
    and "\<exists>s. ToString rt (js_or (js_prop current ''description'') (JStr [])) = Inr s
           \<and> desc r = toLowerCase rt s"
    and "\<exists>p. ToNumber rt (js_or (opt_get (opt_at0 forecast) ''pop'') (JNum (Fin 0))) = Inr p
           \<and> pop r = Math_round (times100 rt p)"
  using assms unfolding rule_readings_def and_then_Inr_iff get_Inr_iff
  by auto

lemma rule_tips_Inr_iff:
  "rule_tips rt current forecast = Inr tips \<longleftrightarrow>
     (\<exists>r. rule_readings rt current forecast = Inr r \<and> tips = sliced_tips r)"
  unfolding rule_tips_def and_then_Inr_iff by auto

lemma subseq_pushed_tips: "subseq (pushed_tips r) decision_table"
proof -
  have "subseq (pushed_tips r)
          ([tip_hot, tip_cool, tip_pleasant] @ [tip_humid] @ [tip_breezy] @ [tip_umbrella]
           @ [tip_air] @ [tip_clear])"
    unfolding pushed_tips_def
    by (intro list_emb_append_mono) (simp_all add: subseq_singleton_left)
  then show ?thesis by (simp add: decision_table_def)
qed

lemma tips_distinct:
  "distinct [tip_generic, tip_hot, tip_cool, tip_pleasant, tip_humid, tip_breezy,
             tip_umbrella, tip_air, tip_clear]"
  "distinct (rev [tip_generic, tip_hot, tip_cool, tip_pleasant, tip_humid, tip_breezy,
                  tip_umbrella, tip_air, tip_clear])"
  by (simp_all add: tip_defs)

lemmas tip_neq = tips_distinct [simplified]

lemma in_set_if: "x \<in> set (if c then [y] else []) \<longleftrightarrow> c \<and> x = y"
  by auto

lemma humid_pushed: "tip_humid \<in> set (pushed_tips r) \<longleftrightarrow> num_ge (hum r) 70"
  unfolding pushed_tips_def by (simp add: in_set_if tip_neq)

lemma breezy_pushed: "tip_breezy \<in> set (pushed_tips r) \<longleftrightarrow> num_ge (wind r) 8"
  unfolding pushed_tips_def by (simp add: in_set_if tip_neq)

lemma umbrella_pushed:
  "tip_umbrella \<in> set (pushed_tips r)
     \<longleftrightarrow> str_includes (desc r) ''rain'' \<or> num_ge (pop r) 40"
  unfolding pushed_tips_def by (simp add: in_set_if tip_neq)

lemma sliced_in_pushed:
  assumes "x \<in> set (sliced_tips r)" "x \<noteq> tip_generic"
  shows "x \<in> set (pushed_tips r)"
proof (cases "pushed_tips r = []")
  case True
  with assms show ?thesis by (simp add: sliced_tips_def)
next
  case False
  with assms(1) have "x \<in> set (take 4 (pushed_tips r))" by (simp add: sliced_tips_def)
  then show ?thesis by (rule in_set_takeD)
qed

lemma early_in_sliced:
  assumes "pushed_tips r = xs @ x # ys" "length xs < 4"
  shows "x \<in> set (sliced_tips r)"
proof -
  from assms(2) obtain k where k: "4 - length xs = Suc k"
    by (cases "4 - length xs") simp_all
  have "pushed_tips r \<noteq> []" by (simp add: assms(1))
  then have "sliced_tips r = take 4 xs @ take (4 - length xs) (x # ys)"
    by (simp add: sliced_tips_def assms(1))
  then show ?thesis by (simp add: k)
qed

lemma humid_iff: "tip_humid \<in> set (sliced_tips r) \<longleftrightarrow> num_ge (hum r) 70"
proof
  assume "tip_humid \<in> set (sliced_tips r)"
  then have "tip_humid \<in> set (pushed_tips r)"
    by (rule sliced_in_pushed) (simp add: tip_neq)
  then show "num_ge (hum r) 70" by (simp only: humid_pushed)
next
  let ?T = "if t r \<noteq> NaN
      then [if num_ge (t r) 32 \<or> num_ge (feels r) 34 then tip_hot
            else if num_le (t r) 15 then tip_cool else tip_pleasant]
      else []"
  assume "num_ge (hum r) 70"
  then have "\<exists>ys. pushed_tips r = ?T @ tip_humid # ys"
    by (simp add: pushed_tips_def)
  moreover have "length ?T < 4" by simp
  ultimately show "tip_humid \<in> set (sliced_tips r)"
    using early_in_sliced by blast
qed

lemma breezy_iff: "tip_breezy \<in> set (sliced_tips r) \<longleftrightarrow> num_ge (wind r) 8"
proof
  assume "tip_breezy \<in> set (sliced_tips r)"
  then have "tip_breezy \<in> set (pushed_tips r)"
    by (rule sliced_in_pushed) (simp add: tip_neq)
  then show "num_ge (wind r) 8" by (simp only: breezy_pushed)
next
  let ?T = "(if t r \<noteq> NaN
      then [if num_ge (t r) 32 \<or> num_ge (feels r) 34 then tip_hot
            else if num_le (t r) 15 then tip_cool else tip_pleasant]
      else [])
     @ (if num_ge (hum r) 70 then [tip_humid] else [])"
  assume "num_ge (wind r) 8"
  then have "\<exists>ys. pushed_tips r = ?T @ tip_breezy # ys"
    by (simp add: pushed_tips_def)
  moreover have "length ?T < 4" by simp
  ultimately show "tip_breezy \<in> set (sliced_tips r)"
    using early_in_sliced by blast
qed

lemma umbrella_iff:
  "tip_umbrella \<in> set (sliced_tips r)
     \<longleftrightarrow> str_includes (desc r) ''rain'' \<or> num_ge (pop r) 40"
proof
  assume "tip_umbrella \<in> set (sliced_tips r)"
  then have "tip_umbrella \<in> set (pushed_tips r)"
    by (rule sliced_in_pushed) (simp add: tip_neq)
  then show "str_includes (desc r) ''rain'' \<or> num_ge (pop r) 40"
    by (simp only: umbrella_pushed)
next
  let ?T = "(if t r \<noteq> NaN
      then [if num_ge (t r) 32 \<or> num_ge (feels r) 34 then tip_hot
            else if num_le (t r) 15 then tip_cool else tip_pleasant]
      else [])
     @ (if num_ge (hum r) 70 then [tip_humid] else [])
     @ (if num_ge (wind r) 8 then [tip_breezy] else [])"
  assume "str_includes (desc r) ''rain'' \<or> num_ge (pop r) 40"
  then have "\<exists>ys. pushed_tips r = ?T @ tip_umbrella # ys"
    by (simp add: pushed_tips_def)
  moreover have "length ?T < 4" by simp
  ultimately show "tip_umbrella \<in> set (sliced_tips r)"
    using early_in_sliced by blast
qed

lemma distinct_decision_table: "distinct decision_table"
  using tips_distinct(1) by (simp add: decision_table_def)

lemma example_tips:
  "rule_tips rt example_current example_forecast
     = Inr [tip_hot, tip_humid, tip_breezy, tip_umbrella]"
  by (simp add: example_eval example_current_def example_forecast_def)

lemma set_pushed_tips: "set (pushed_tips r) \<subseteq> set decision_table"
  using list_emb_set [OF subseq_pushed_tips [of r]] by auto

lemma sliced_tips_nonempty: "sliced_tips r \<noteq> []"
  unfolding sliced_tips_def by simp


lemma set_sliced_tips: "set (sliced_tips r) \<subseteq> set (tip_generic # decision_table)"
proof -
  have "set (sliced_tips r)
          \<subseteq> set (if pushed_tips r \<noteq> [] then pushed_tips r else [tip_generic])"
    unfolding sliced_tips_def by (rule set_take_subset)
  also have "\<dots> \<subseteq> set (tip_generic # decision_table)"
    using set_pushed_tips [of r] by auto
  finally show ?thesis .
qed



lemma tip_one_line: "x \<in> set (tip_generic # decision_table) \<Longrightarrow> CHR 0x0A \<notin> set x"
  by (auto simp: decision_table_def tip_defs)

lemma split_lines_format_tips:
  "split_lines (format_tips (sliced_tips r)) = map (\<lambda>tip. ''- '' @ tip) (sliced_tips r)"
  unfolding format_tips_def
proof (rule split_lines_join)
  show "map (\<lambda>tip. ''- '' @ tip) (sliced_tips r) \<noteq> []"
    by (simp add: sliced_tips_nonempty)
  show "\<forall>x\<in>set (map (\<lambda>tip. ''- '' @ tip) (sliced_tips r)). CHR 0x0A \<notin> set x"
  proof
    fix x
    assume "x \<in> set (map (\<lambda>tip. ''- '' @ tip) (sliced_tips r))"
    then obtain tip where tip: "tip \<in> set (sliced_tips r)" and x: "x = ''- '' @ tip"
      by auto
    from tip set_sliced_tips [of r] have "tip \<in> set (tip_generic # decision_table)"
      by (rule subsetD [rotated])
    then have "CHR 0x0A \<notin> set tip" by (rule tip_one_line)
    then show "CHR 0x0A \<notin> set x" by (simp add: x)
  qed
qed

lemma ruleBasedAdvice_Inr:
  "rule_readings rt current forecast = Inr r
     \<Longrightarrow> ruleBasedAdvice rt current forecast = Inr (format_tips (sliced_tips r))"
  by (simp add: ruleBasedAdvice_def rule_tips_def and_then_def)

text \<open>
  Claim C6. For the input \<^verbatim>\<open>current.temp = 36\<close>, \<^verbatim>\<open>humidity = 80\<close>,
  \<^verbatim>\<open>wind_speed = 10\<close>, \<^verbatim>\<open>description = "light rain"\<close>, \<^verbatim>\<open>forecast[0].pop = 0.5\<close>
  the rule engine returns the text of four lines: the heat tip, the humidity tip, the
  wind tip and the umbrella tip, in this order, each behind a dash. In general, whenever
  the readings can be taken, the lines of the text it returns are the first four of the
  tips pushed (the generic tip when none was pushed), each behind a dash, in the order in
  which they were pushed; and the tips pushed follow the order of the decision table,
  whose tips are pairwise different: the result is never re-sorted.
\<close>

theorem rule_engine_order:
  "ruleBasedAdvice rt example_current example_forecast
     = Inr (''- '' @ tip_hot @ [CHR 0x0A] @ ''- '' @ tip_humid @ [CHR 0x0A]
            @ ''- '' @ tip_breezy @ [CHR 0x0A] @ ''- '' @ tip_umbrella)
   \<and> (rule_readings rt current forecast = Inr r \<longrightarrow>
        (\<exists>a. ruleBasedAdvice rt current forecast = Inr a
           \<and> split_lines a
               = map (\<lambda>tip. ''- '' @ tip)
                   (take 4 (if pushed_tips r \<noteq> [] then pushed_tips r else [tip_generic])))
        \<and> subseq (pushed_tips r) decision_table
        \<and> distinct decision_table)"
proof -
  have ex: "ruleBasedAdvice rt example_current example_forecast
     = Inr (''- '' @ tip_hot @ [CHR 0x0A] @ ''- '' @ tip_humid @ [CHR 0x0A]
            @ ''- '' @ tip_breezy @ [CHR 0x0A] @ ''- '' @ tip_umbrella)"
    by (simp add: ruleBasedAdvice_def example_tips and_then_def format_tips_def)
  have gen: "\<exists>a. ruleBasedAdvice rt current forecast = Inr a
           \<and> split_lines a
               = map (\<lambda>tip. ''- '' @ tip)
                   (take 4 (if pushed_tips r \<noteq> [] then pushed_tips r else [tip_generic]))"
    if "rule_readings rt current forecast = Inr r"
  proof -
    have "split_lines (format_tips (sliced_tips r))
            = map (\<lambda>tip. ''- '' @ tip)
                (take 4 (if pushed_tips r \<noteq> [] then pushed_tips r else [tip_generic]))"
      using split_lines_format_tips [of r] by (simp only: sliced_tips_def)
    with ruleBasedAdvice_Inr [OF that] show ?thesis by (intro exI conjI)
  qed
  show ?thesis
    by (intro conjI impI ex gen subseq_pushed_tips distinct_decision_table)
qed

text \<open>
  Witness: with haze in the description five conditions hold, five tips are pushed, and
  the lines of the result are the first four.
\<close>

theorem rule_engine_order_witness:
  "\<forall>rt. pushed_tips \<lparr> t = Fin 36, feels = NaN, hum = Fin 80, wind = Fin 10,
                      desc = ''light rain, haze'', pop = Fin 50 \<rparr>
           = [tip_hot, tip_humid, tip_breezy, tip_umbrella, tip_air]
     \<and> (\<exists>a. ruleBasedAdvice rt hazy_current example_forecast = Inr a
           \<and> split_lines a
               = [''- '' @ tip_hot, ''- '' @ tip_humid, ''- '' @ tip_breezy,
                  ''- '' @ tip_umbrella])"
proof
  fix rt
  let ?r = "\<lparr> t = Fin 36, feels = NaN, hum = Fin 80, wind = Fin 10,
              desc = ''light rain, haze'', pop = Fin 50 \<rparr>"
  have r: "rule_readings rt hazy_current example_forecast = Inr ?r"
    by (simp add: example_eval hazy_current_def example_forecast_def)
  have p: "pushed_tips ?r = [tip_hot, tip_humid, tip_breezy, tip_umbrella, tip_air]"
    by (simp add: pushed_tips_def)
  from rule_engine_order [of rt hazy_current example_forecast ?r] r
  obtain a where a: "ruleBasedAdvice rt hazy_current example_forecast = Inr a"
    and l: "split_lines a
              = map (\<lambda>tip. ''- '' @ tip)
                  (take 4 (if pushed_tips ?r \<noteq> [] then pushed_tips ?r else [tip_generic]))"
    by blast
  from l have "split_lines a
      = [''- '' @ tip_hot, ''- '' @ tip_humid, ''- '' @ tip_breezy, ''- '' @ tip_umbrella]"
    by (simp only: p) simp
  with a have "\<exists>a. ruleBasedAdvice rt hazy_current example_forecast = Inr a
           \<and> split_lines a
               = [''- '' @ tip_hot, ''- '' @ tip_humid, ''- '' @ tip_breezy,
                  ''- '' @ tip_umbrella]"
    by (intro exI conjI)
  with p show "pushed_tips ?r = [tip_hot, tip_humid, tip_breezy, tip_umbrella, tip_air]
     \<and> (\<exists>a. ruleBasedAdvice rt hazy_current example_forecast = Inr a
           \<and> split_lines a
               = [''- '' @ tip_hot, ''- '' @ tip_humid, ''- '' @ tip_breezy,
                  ''- '' @ tip_umbrella])"
    by (rule conjI)
qed




text \<open>
  Claim C10. The rule engine reads an absent \<^verbatim>\<open>current.humidity\<close>, an absent
  \<^verbatim>\<open>current.wind_speed\<close> and an absent \<^verbatim>\<open>forecast[0].pop\<close> as 0: with the humidity
  missing the breathability tip is not in the result, with the wind speed missing the
  wind-safety tip is not in the result, and with the rain probability missing (as for an
  empty forecast) the rounded probability is 0 and the umbrella tip is in the result
  exactly when the lowered description contains ``rain''. The result is the list of tips
  that the lines of the returned text hold, each behind a dash. A value is absent when
  the read of it yields \<^verbatim>\<open>undefined\<close>; a first forecast entry that is itself an array
  has a \<^verbatim>\<open>pop\<close>, the inherited method.
\<close>

theorem absent_readings_count_as_zero:
  assumes "rule_readings rt current forecast = Inr r"
  shows "rule_tips rt current forecast = Inr (sliced_tips r)
     \<and> (\<exists>a. ruleBasedAdvice rt current forecast = Inr a
           \<and> split_lines a = map (\<lambda>tip. ''- '' @ tip) (sliced_tips r))
     \<and> (js_prop current ''humidity'' = JUndefined \<longrightarrow>
          hum r = Fin 0 \<and> tip_humid \<notin> set (sliced_tips r))
     \<and> (js_prop current ''wind_speed'' = JUndefined \<longrightarrow>
          wind r = Fin 0 \<and> tip_breezy \<notin> set (sliced_tips r))
     \<and> (opt_get (opt_at0 forecast) ''pop'' = JUndefined \<longrightarrow>
          pop r = Fin 0
          \<and> (tip_umbrella \<in> set (sliced_tips r) \<longleftrightarrow> str_includes (desc r) ''rain''))
     \<and> opt_get (opt_at0 (JArr [])) ''pop'' = JUndefined
     \<and> opt_get (opt_at0 (JArr [JArr xs])) ''pop'' = JPopMethod"
proof -
  have tips: "rule_tips rt current forecast = Inr (sliced_tips r)"
    using assms by (simp add: rule_tips_Inr_iff)
  have h: "hum r = Fin 0 \<and> tip_humid \<notin> set (sliced_tips r)"
    if "js_prop current ''humidity'' = JUndefined"
  proof -
    from rule_readings_fields(4) [OF assms] that have "hum r = Fin 0"
      by (simp add: js_or_def)
    then show ?thesis by (simp add: humid_iff)
  qed
  have w: "wind r = Fin 0 \<and> tip_breezy \<notin> set (sliced_tips r)"
    if "js_prop current ''wind_speed'' = JUndefined"
  proof -
    from rule_readings_fields(5) [OF assms] that have "wind r = Fin 0"
      by (simp add: js_or_def)
    then show ?thesis by (simp add: breezy_iff)
  qed
  have p: "pop r = Fin 0
      \<and> (tip_umbrella \<in> set (sliced_tips r) \<longleftrightarrow> str_includes (desc r) ''rain'')"
    if "opt_get (opt_at0 forecast) ''pop'' = JUndefined"
  proof -
    from rule_readings_fields(7) [OF assms] that have "pop r = Fin 0"
      by (auto simp: js_or_def)
    then show ?thesis by (simp add: umbrella_iff)
  qed
  have e: "opt_get (opt_at0 (JArr [])) ''pop'' = JUndefined"
    by (simp add: opt_get_def nullish_def)
  have m: "opt_get (opt_at0 (JArr [JArr xs])) ''pop'' = JPopMethod"
    by (simp add: opt_get_def nullish_def)
  have a: "\<exists>a. ruleBasedAdvice rt current forecast = Inr a
           \<and> split_lines a = map (\<lambda>tip. ''- '' @ tip) (sliced_tips r)"
    using ruleBasedAdvice_Inr [OF assms] split_lines_format_tips [of r]
    by (intro exI conjI)
  show ?thesis
    by (rule conjI [OF tips conjI [OF a conjI [OF impI [OF h]
          conjI [OF impI [OF w] conjI [OF impI [OF p] conjI [OF e m]]]]]])
qed

text \<open>Witness: mild weather with light rain, no humidity, no wind speed, no forecast.\<close>

theorem absent_readings_count_as_zero_witness:
  "\<forall>rt. js_prop (JObj [(''temp'', JNum (Fin 20)), (''description'', JStr ''Light rain'')])
            ''humidity'' = JUndefined
     \<and> js_prop (JObj [(''temp'', JNum (Fin 20)), (''description'', JStr ''Light rain'')])
            ''wind_speed'' = JUndefined
     \<and> rule_tips rt (JObj [(''temp'', JNum (Fin 20)), (''description'', JStr ''Light rain'')])
            (JArr []) = Inr [tip_pleasant, tip_umbrella]"
proof
  fix rt
  let ?cur = "JObj [(''temp'', JNum (Fin 20)), (''description'', JStr ''Light rain'')]"
  let ?r = "\<lparr> t = Fin 20, feels = NaN, hum = Fin 0, wind = Fin 0,
              desc = ''light rain'', pop = Fin 0 \<rparr>"
  have r: "rule_readings rt ?cur (JArr []) = Inr ?r"
    by (simp add: example_eval)
  have s: "sliced_tips ?r = [tip_pleasant, tip_umbrella]"
    by (simp add: sliced_tips_def pushed_tips_def)
  have "rule_tips rt ?cur (JArr []) = Inr (sliced_tips ?r)"
    using absent_readings_count_as_zero [OF r, of "[]"] by (rule conjunct1)
  then show "js_prop ?cur ''humidity'' = JUndefined \<and> js_prop ?cur ''wind_speed'' = JUndefined
     \<and> rule_tips rt ?cur (JArr []) = Inr [tip_pleasant, tip_umbrella]"
    by (simp add: s)
qed

section \<open>The advice route\<close>




lemma trim_Nil: "trim [] = []"
  by (simp add: trim_def)





section \<open>Normalization of the forecast\<close>

lemma is_timestamp_split:
  assumes "is_timestamp s"
  shows "split_first s = take 10 s"
proof -
  have nd: "is_digit c \<Longrightarrow> c \<noteq> CHR '' ''" for c by (auto simp: is_digit_def)
  from assms show ?thesis
    by (cases s rule: is_timestamp.cases) (auto simp: split_first_def nd)
qed

lemma take_le_mono: "(xs :: 'a::linorder list) \<le> ys \<Longrightarrow> take n xs \<le> take n ys"
proof (induction n arbitrary: xs ys)
  case 0
  then show ?case by simp
next
  case (Suc n)
  show ?case
  proof (cases xs)
    case Nil
    then show ?thesis by simp
  next
    case xs: (Cons x xs')
    show ?thesis
    proof (cases ys)
      case Nil
      with xs Suc.prems show ?thesis by simp
    next
      case (Cons y ys')
      with xs Suc.prems Suc.IH [of xs' ys'] show ?thesis by auto
    qed
  qed
qed

lemma date_of_mono:
  assumes "timestamped a" "timestamped b" "dt_txt_of a \<le> dt_txt_of b"
  shows "date_of a \<le> date_of b"
  using assms by (simp add: date_of_def timestamped_def is_timestamp_split take_le_mono)

lemma day_of_entry [simp]: "js_prop (forecast_entry item d) ''day'' = JStr d"
  by (simp add: forecast_entry_def)

lemma day_of_entry_of [simp]: "day_of (entry_of item) = date_of item"
  by (simp add: day_of_def entry_of_def)

lemma has_day_iff: "entries acc \<Longrightarrow> has_day acc d \<longleftrightarrow> d \<in> set (map day_of acc)"
  by (induction acc) (auto simp: has_day_def entries_def)

lemma reduce_step_timestamped:
  assumes "timestamped item" "entries acc"
  shows "reduce_step acc item =
           Inr (if date_of item \<in> set (map day_of acc) then acc else acc @ [entry_of item])"
  using assms
  by (simp add: reduce_step_def timestamped_def get_def and_then_def has_day_iff date_of_def entry_of_def)

lemma first_of_each_date_cong:
  "set seen = set seen' \<Longrightarrow> first_of_each_date seen items = first_of_each_date seen' items"
proof (induction items arbitrary: seen seen')
  case Nil
  then show ?case by simp
next
  case (Cons item items)
  from Cons.prems have "set (date_of item # seen) = set (date_of item # seen')" by simp
  with Cons.prems Cons.IH [of seen seen'] Cons.IH [of "date_of item # seen" "date_of item # seen'"]
  show ?case by simp
qed

lemma reduce_days_timestamped:
  assumes "list_all timestamped items" "entries acc"
  shows "reduce_days acc items =
           Inr (acc @ map entry_of (first_of_each_date (map day_of acc) items))"
  using assms
proof (induction items arbitrary: acc)
  case Nil
  then show ?case by simp
next
  case (Cons item items)
  then have ts: "timestamped item" and rest: "list_all timestamped items" by simp_all
  show ?case
  proof (cases "date_of item \<in> set (map day_of acc)")
    case True
    with Cons.IH [OF rest Cons.prems(2)] reduce_step_timestamped [OF ts Cons.prems(2)]
    show ?thesis by simp
  next
    case False
    have e: "entries (acc @ [entry_of item])"
      using Cons.prems(2) by (simp add: entries_def entry_of_def day_of_def)
    have "first_of_each_date (map day_of (acc @ [entry_of item])) items
            = first_of_each_date (date_of item # map day_of acc) items"
      by (rule first_of_each_date_cong) auto
    with False Cons.IH [OF rest e] reduce_step_timestamped [OF ts Cons.prems(2)]
    show ?thesis by simp
  qed
qed

lemma first_of_each_date_subseq: "subseq (first_of_each_date seen items) items"
  by (induction items arbitrary: seen) auto

lemma first_of_each_date_fresh:
  "set (map date_of (first_of_each_date seen items)) \<inter> set seen = {}"
proof (induction items arbitrary: seen)
  case Nil
  then show ?case by simp
next
  case (Cons item items)
  from Cons.IH [of seen] Cons.IH [of "date_of item # seen"] show ?case by auto
qed

lemma first_of_each_date_distinct: "distinct (map date_of (first_of_each_date seen items))"
proof (induction items arbitrary: seen)
  case Nil
  then show ?case by simp
next
  case (Cons item items)
  from Cons.IH [of seen] Cons.IH [of "date_of item # seen"]
    first_of_each_date_fresh [of "date_of item # seen" items]
  show ?case by auto
qed

lemma sorted_dates:
  assumes "list_all timestamped items" "sorted (map dt_txt_of items)"
  shows "sorted (map date_of items)"
  using assms
proof (induction items)
  case Nil
  then show ?case by simp
next
  case (Cons item items)
  then show ?case by (auto simp: list_all_iff intro: date_of_mono)
qed

lemma strict_dates:
  assumes "list_all timestamped items" "sorted (map dt_txt_of items)"
  shows "sorted_wrt (<) (map date_of (first_of_each_date seen items))"
proof -
  have "subseq (map date_of (first_of_each_date seen items)) (map date_of items)"
    by (rule subseq_map) (rule first_of_each_date_subseq)
  then obtain N where "map date_of (first_of_each_date seen items) = nths (map date_of items) N"
    unfolding subseq_conv_nths by blast
  with sorted_dates [OF assms] have "sorted (map date_of (first_of_each_date seen items))"
    by (simp add: sorted_nths)
  with first_of_each_date_distinct [of seen items] show ?thesis
    by (simp add: strict_sorted_iff)
qed


lemma first_of_each_date_first:
  assumes "x \<in> set (first_of_each_date seen items)"
  shows "\<exists>pre post. items = pre @ x # post
           \<and> date_of x \<notin> set (map date_of pre) \<union> set seen"
  using assms
proof (induction items arbitrary: seen)
  case Nil
  then show ?case by simp
next
  case (Cons item items)
  show ?case
  proof (cases "date_of item \<in> set seen")
    case True
    with Cons.prems have "x \<in> set (first_of_each_date seen items)" by simp
    from Cons.IH [OF this] obtain pre post where
      "items = pre @ x # post" "date_of x \<notin> set (map date_of pre) \<union> set seen"
      by blast
    with True have "item # items = (item # pre) @ x # post
        \<and> date_of x \<notin> set (map date_of (item # pre)) \<union> set seen"
      by auto
    then show ?thesis by blast
  next
    case False
    with Cons.prems
    consider "x = item" | "x \<in> set (first_of_each_date (date_of item # seen) items)"
      by auto
    then show ?thesis
    proof cases
      case 1
      with False have "item # items = [] @ x # items
          \<and> date_of x \<notin> set (map date_of []) \<union> set seen"
        by simp
      then show ?thesis by blast
    next
      case 2
      from Cons.IH [OF this] obtain pre post where
        "items = pre @ x # post"
        "date_of x \<notin> set (map date_of pre) \<union> set (date_of item # seen)"
        by blast
      then have "item # items = (item # pre) @ x # post
          \<and> date_of x \<notin> set (map date_of (item # pre)) \<union> set seen"
        by auto
      then show ?thesis by blast
    qed
  qed
qed

text \<open>
  Claim C2. For a forecast payload whose entries carry timestamps of the form
  \<^verbatim>\<open>YYYY-MM-DD HH:MM:SS\<close> in chronological order, normalization succeeds and the
  normalized sequence consists of the first five of the entries that are the first of
  their date, each the first entry of the payload with that date; it has at most five
  entries, no two with the same \<^verbatim>\<open>day\<close>, in strictly ascending order of date.
\<close>

theorem forecast_first_entry_per_date:
  assumes "\<not> nullish forecast" and "js_prop forecast ''list'' = JArr items"
    and "list_all timestamped items"
    and "sorted (map dt_txt_of items)"
  shows "\<exists>days. normalized_forecast forecast = Inr days
           \<and> days = take 5 (map entry_of (first_of_each_date [] items))
           \<and> (\<forall>x \<in> set (first_of_each_date [] items).
                 \<exists>pre post. items = pre @ x # post \<and> date_of x \<notin> set (map date_of pre))
           \<and> length days \<le> 5
           \<and> entries days
           \<and> distinct (map day_of days)
           \<and> sorted_wrt (<) (map day_of days)"
proof -
  let ?firsts = "first_of_each_date [] items"
  let ?days = "take 5 (map entry_of ?firsts)"
  have "entries []" by (simp add: entries_def)
  from reduce_days_timestamped [OF assms(3) this]
  have nf: "normalized_forecast forecast = Inr ?days"
    using assms(1,2) by (simp add: normalized_forecast_def and_then_def get_def)
  have first: "\<forall>x \<in> set ?firsts.
      \<exists>pre post. items = pre @ x # post \<and> date_of x \<notin> set (map date_of pre)"
    using first_of_each_date_first [of _ "[]" items] by auto
  have days: "map day_of ?days = take 5 (map date_of ?firsts)"
    by (simp add: take_map comp_def)
  have len: "length ?days \<le> 5" by simp
  have "entries (map entry_of ?firsts)"
    by (simp add: entries_def list_all_iff entry_of_def day_of_def)
  then have ent: "entries ?days"
    unfolding entries_def list_all_iff using in_set_takeD by fast
  have dist: "distinct (map day_of ?days)"
    unfolding days using first_of_each_date_distinct [of "[]" items] by (rule distinct_take)
  have srt: "sorted_wrt (<) (map day_of ?days)"
    unfolding days using strict_dates [OF assms(3,4), of "[]"] by (rule sorted_wrt_take)
  from nf first len ent dist srt show ?thesis by blast
qed

text \<open>
  Witness: seven entries over six dates, two of them on the second date; the result has
  the five first dates, and the second date's entry is the one of midnight.
\<close>

theorem forecast_first_entry_per_date_witness:
  "list_all timestamped example_items
   \<and> sorted (map dt_txt_of example_items)
   \<and> (\<exists>days. normalized_forecast (JObj [(''list'', JArr example_items)]) = Inr days
         \<and> map day_of days
             = [''2024-05-01'', ''2024-05-02'', ''2024-05-03'', ''2024-05-04'', ''2024-05-05'']
         \<and> js_prop (days ! 1) ''pop'' = JNum (Fin (1 / 2))
         \<and> sorted_wrt (<) (map day_of days))"
proof -
  let ?fc = "JObj [(''list'', JArr example_items)]"
  have ts: "list_all timestamped example_items"
    by (simp add: example_items_def example_item_def timestamped_def dt_txt_of_def
        nullish_def is_digit_def)
  have srt: "sorted (map dt_txt_of example_items)"
    by (simp add: example_items_def example_item_def dt_txt_of_def less_char_def
        less_eq_char_def)
  have nn: "\<not> nullish ?fc" and l: "js_prop ?fc ''list'' = JArr example_items"
    by (simp_all add: nullish_def)
  from forecast_first_entry_per_date [OF nn l ts srt] obtain days where
    nf: "normalized_forecast ?fc = Inr days" and
    d: "days = take 5 (map entry_of (first_of_each_date [] example_items))" and
    s: "sorted_wrt (<) (map day_of days)"
    by blast
  have f: "first_of_each_date [] example_items
      = [example_item ''2024-05-01 21:00:00'' 0, example_item ''2024-05-02 00:00:00'' (1 / 2),
         example_item ''2024-05-03 00:00:00'' 0, example_item ''2024-05-04 00:00:00'' 0,
         example_item ''2024-05-05 00:00:00'' 0, example_item ''2024-05-06 00:00:00'' 0]"
    by (simp add: example_items_def example_item_def date_of_def dt_txt_of_def split_first_def)
  have m: "map day_of days
      = [''2024-05-01'', ''2024-05-02'', ''2024-05-03'', ''2024-05-04'', ''2024-05-05'']"
    unfolding d f
    by (simp add: example_item_def date_of_def dt_txt_of_def split_first_def)
  have p: "js_prop (days ! 1) ''pop'' = JNum (Fin (1 / 2))"
    unfolding d f by (simp add: entry_of_def forecast_entry_def example_item_def)
  have "\<exists>days. normalized_forecast ?fc = Inr days
         \<and> map day_of days
             = [''2024-05-01'', ''2024-05-02'', ''2024-05-03'', ''2024-05-04'', ''2024-05-05'']
         \<and> js_prop (days ! 1) ''pop'' = JNum (Fin (1 / 2))
         \<and> sorted_wrt (<) (map day_of days)"
    by (rule exI [of _ days]) (intro conjI nf m p s)
  then show ?thesis by (intro conjI ts srt)
qed

section \<open>The cache\<close>

lemma getCache_absent: "c key = None \<Longrightarrow> getCache key now c = (JNull, c)"
  by (simp add: getCache_def)

lemma getCache_stale:
  "c key = Some hit \<Longrightarrow> now - ts hit > cacheTTLms
     \<Longrightarrow> getCache key now c = (JNull, c(key := None))"
  by (simp add: getCache_def)

lemma getCache_fresh:
  "c key = Some hit \<Longrightarrow> \<not> now - ts hit > cacheTTLms
     \<Longrightarrow> getCache key now c = (data hit, c)"
  by (simp add: getCache_def)

lemma getCache_other: "k' \<noteq> k \<Longrightarrow> snd (getCache k now c) k' = c k'"
  by (simp add: getCache_def split: option.split)

text \<open>
  Claim C3. The time to live is five minutes. A lookup of an absent key reports a miss and
  leaves the cache as it is; a lookup of a key whose entry is older than the time to live
  reports a miss as well and deletes that entry; only an entry that is not older is
  returned. The age is measured from the time \<^verbatim>\<open>setCache\<close> stored the entry.
\<close>

theorem stale_entries_are_misses:
  "cacheTTLms = 5 * 60 * 1000
   \<and> (c key = None \<longrightarrow> getCache key now c = (JNull, c))
   \<and> (c key = Some hit \<and> now - ts hit > cacheTTLms \<longrightarrow>
         getCache key now c = (JNull, c(key := None)))
   \<and> (c key = Some hit \<and> \<not> now - ts hit > cacheTTLms \<longrightarrow>
         getCache key now c = (data hit, c))
   \<and> (now - inserted > cacheTTLms \<longrightarrow>
         fst (getCache key now (setCache key d inserted c)) = JNull
         \<and> snd (getCache key now (setCache key d inserted c)) key = None)"
  by (simp add: getCache_def setCache_def cacheTTLms_def)

text \<open>
  Witness: an entry stored at time 1000 is returned 300000 ms later, and is a miss and
  gone one millisecond after that; a key never stored is a miss.
\<close>

theorem stale_entries_are_misses_witness:
  "getCache ''wx:paris'' 301000 (setCache ''wx:paris'' (JStr ''sunny'') 1000 Map.empty)
     = (JStr ''sunny'', setCache ''wx:paris'' (JStr ''sunny'') 1000 Map.empty)
   \<and> fst (getCache ''wx:paris'' 301001
          (setCache ''wx:paris'' (JStr ''sunny'') 1000 Map.empty)) = JNull
   \<and> snd (getCache ''wx:paris'' 301001
          (setCache ''wx:paris'' (JStr ''sunny'') 1000 Map.empty)) ''wx:paris'' = None
   \<and> getCache ''wx:rome'' 301001 (setCache ''wx:paris'' (JStr ''sunny'') 1000 Map.empty)
     = (JNull, setCache ''wx:paris'' (JStr ''sunny'') 1000 Map.empty)"
proof -
  let ?c = "setCache ''wx:paris'' (JStr ''sunny'') 1000 Map.empty"
  let ?hit = "\<lparr> data = JStr ''sunny'', ts = 1000 \<rparr>"
  have paris: "?c ''wx:paris'' = Some ?hit" and rome: "?c ''wx:rome'' = None"
    by (simp_all add: setCache_def)
  have fresh: "\<not> 301000 - ts ?hit > cacheTTLms" and stale: "301001 - 1000 > cacheTTLms"
    by (simp_all add: cacheTTLms_def)
  from stale_entries_are_misses [of ?c "''wx:paris''" 301000 ?hit] paris fresh
  have a: "getCache ''wx:paris'' 301000 ?c = (JStr ''sunny'', ?c)" by simp
  from stale_entries_are_misses [where key = "''wx:paris''" and now = 301001
      and inserted = 1000 and d = "JStr ''sunny''" and c = Map.empty] stale
  have b: "fst (getCache ''wx:paris'' 301001 ?c) = JNull"
    and b': "snd (getCache ''wx:paris'' 301001 ?c) ''wx:paris'' = None"
    by simp_all
  from stale_entries_are_misses [of ?c "''wx:rome''" 301001] rome
  have d: "getCache ''wx:rome'' 301001 ?c = (JNull, ?c)" by simp
  show ?thesis by (intro conjI a b b' d)
qed

text \<open>
  Claim C9. For keys \<open>k \<noteq> k'\<close>, a lookup of \<open>k\<close> and an insertion under \<open>k\<close> leave the
  entry under \<open>k'\<close> as it is; and a lookup of \<open>k\<close> either leaves the entry under \<open>k\<close> as
  it is or deletes it, the latter only when it is older than the time to live.
\<close>

theorem cache_frame:
  "(k \<noteq> k' \<longrightarrow>
      snd (getCache k now c) k' = c k' \<and> setCache k d now c k' = c k')
   \<and> (snd (getCache k now c) k = c k
       \<or> snd (getCache k now c) k = None
          \<and> (\<exists>hit. c k = Some hit \<and> now - ts hit > cacheTTLms))"
  by (simp add: getCache_def setCache_def split: option.split)

text \<open>
  Witness: a stale lookup of one city and an insertion for it leave another city's entry
  in place.
\<close>

theorem cache_frame_witness:
  "snd (getCache ''wx:paris'' 400000
      (setCache ''wx:rome'' (JStr ''hot'') 390000
        (setCache ''wx:paris'' (JStr ''sunny'') 1000 Map.empty))) ''wx:rome''
     = Some \<lparr> data = JStr ''hot'', ts = 390000 \<rparr>
   \<and> setCache ''wx:paris'' (JStr ''rain'') 400000
        (setCache ''wx:rome'' (JStr ''hot'') 390000 Map.empty) ''wx:rome''
     = Some \<lparr> data = JStr ''hot'', ts = 390000 \<rparr>"
proof -
  let ?c = "setCache ''wx:rome'' (JStr ''hot'') 390000
              (setCache ''wx:paris'' (JStr ''sunny'') 1000 Map.empty)"
  let ?c' = "setCache ''wx:rome'' (JStr ''hot'') 390000 Map.empty"
  have ne: "''wx:paris'' \<noteq> ''wx:rome''" by simp
  have rome: "?c ''wx:rome'' = Some \<lparr> data = JStr ''hot'', ts = 390000 \<rparr>"
    and rome': "?c' ''wx:rome'' = Some \<lparr> data = JStr ''hot'', ts = 390000 \<rparr>"
    by (simp_all add: setCache_def)
  from cache_frame [of "''wx:paris''" "''wx:rome''" 400000 ?c] ne rome
  have a: "snd (getCache ''wx:paris'' 400000 ?c) ''wx:rome''
      = Some \<lparr> data = JStr ''hot'', ts = 390000 \<rparr>"
    by simp
  from cache_frame [of "''wx:paris''" "''wx:rome''" 400000 ?c' "JStr ''rain''"] ne rome'
  have b: "setCache ''wx:paris'' (JStr ''rain'') 400000 ?c' ''wx:rome''
      = Some \<lparr> data = JStr ''hot'', ts = 390000 \<rparr>"
    by simp
  show ?thesis by (intro conjI a b)
qed

section \<open>The weather route\<close>

lemma status_res_json [simp]: "status (res_json v) = 200" "body (res_json v) = v"
  by (simp_all add: res_json_def)

lemma status_res_status_json [simp]:
  "status (res_status_json n v) = n" "body (res_status_json n v) = v"
  by (simp_all add: res_status_json_def)

lemma status_server_error [simp]:
  "status server_error = 500"
  "body server_error = error_body ''Server error fetching weather''"
  by (simp_all add: server_error_def)

lemma city_param_cases:
  "city_param JUndefined = Inr []"
  "city_param (JStr s) = Inr (trim s)"
  "city_param (JArr xs) = Inl TypeError"
  "city_param (JObj kvs) = Inl TypeError"
  by (simp_all add: city_param_def js_or_def trim_def)

lemma weather_route_bad_param:
  "city_param q = Inl e \<Longrightarrow> weather_route rt fetch q t_get t_set c = (server_error, c, [])"
  by (simp add: weather_route_def weather_begin_def weather_resume_def)

lemma weather_route_blank:
  "city_param q = Inr [] \<Longrightarrow>
     weather_route rt fetch q t_get t_set c
       = (res_status_json 400 (error_body ''city is required''), c, [])"
  by (simp add: weather_route_def weather_begin_def weather_resume_def)

lemma weather_route_hit:
  assumes "city_param q = Inr city" "city \<noteq> []"
    and "truthy (fst (getCache (cacheKey rt city) t_get c))"
  shows "weather_route rt fetch q t_get t_set c
           = (res_json (fst (getCache (cacheKey rt city) t_get c)),
              snd (getCache (cacheKey rt city) t_get c), [])"
  using assms by (simp add: weather_route_def weather_begin_def weather_resume_def split_beta)

lemma weather_route_geocode_failed:
  assumes "city_param q = Inr city" "city \<noteq> []"
    and "\<not> truthy (fst (getCache (cacheKey rt city) t_get c))"
    and "geocode fetch city = Inl e"
  shows "weather_route rt fetch q t_get t_set c
           = (server_error, snd (getCache (cacheKey rt city) t_get c), [Geocode city])"
  using assms by (simp add: weather_route_def weather_begin_def weather_resume_def split_beta)

lemma weather_route_not_found:
  assumes "city_param q = Inr city" "city \<noteq> []"
    and "\<not> truthy (fst (getCache (cacheKey rt city) t_get c))"
    and "geocode fetch city = Inr geo" "\<not> truthy (opt_get geo ''length'')"
  shows "weather_route rt fetch q t_get t_set c
           = (res_status_json 404 (error_body ''City not found''),
              snd (getCache (cacheKey rt city) t_get c), [Geocode city])"
  using assms by (simp add: weather_route_def weather_begin_def weather_resume_def split_beta)

lemma weather_route_no_coordinates:
  assumes "city_param q = Inr city" "city \<noteq> []"
    and "\<not> truthy (fst (getCache (cacheKey rt city) t_get c))"
    and "geocode fetch city = Inr geo" "truthy (opt_get geo ''length'')"
    and "coordinates rt geo = Inl e"
  shows "weather_route rt fetch q t_get t_set c
           = (server_error, snd (getCache (cacheKey rt city) t_get c), [Geocode city])"
  using assms by (simp add: weather_route_def weather_begin_def weather_resume_def split_beta)

lemma weather_route_fetch_failed:
  assumes "city_param q = Inr city" "city \<noteq> []"
    and "\<not> truthy (fst (getCache (cacheKey rt city) t_get c))"
    and "geocode fetch city = Inr geo" "truthy (opt_get geo ''length'')"
    and "coordinates rt geo = Inr (la, lo)"
    and "fetch_weather fetch la lo = Inl e"
  shows "weather_route rt fetch q t_get t_set c
           = (server_error, snd (getCache (cacheKey rt city) t_get c),
              [Geocode city, Current la lo, Forecast la lo])"
  using assms by (simp add: weather_route_def weather_begin_def weather_resume_def and_then_def split_beta)

lemma weather_route_normalize_failed:
  assumes "city_param q = Inr city" "city \<noteq> []"
    and "\<not> truthy (fst (getCache (cacheKey rt city) t_get c))"
    and "geocode fetch city = Inr geo" "truthy (opt_get geo ''length'')"
    and "coordinates rt geo = Inr (la, lo)"
    and "fetch_weather fetch la lo = Inr (cur, fc)"
    and "normalize geo cur fc = Inl e"
  shows "weather_route rt fetch q t_get t_set c
           = (server_error, snd (getCache (cacheKey rt city) t_get c),
              [Geocode city, Current la lo, Forecast la lo])"
  using assms by (simp add: weather_route_def weather_begin_def weather_resume_def and_then_def split_beta)

lemma weather_route_fetched:
  assumes "city_param q = Inr city" "city \<noteq> []"
    and "\<not> truthy (fst (getCache (cacheKey rt city) t_get c))"
    and "geocode fetch city = Inr geo" "truthy (opt_get geo ''length'')"
    and "coordinates rt geo = Inr (la, lo)"
    and "fetch_weather fetch la lo = Inr (cur, fc)"
    and "normalize geo cur fc = Inr n"
  shows "weather_route rt fetch q t_get t_set c
           = (res_json n,
              setCache (cacheKey rt city) n t_set (snd (getCache (cacheKey rt city) t_get c)),
              [Geocode city, Current la lo, Forecast la lo])"
  using assms by (simp add: weather_route_def weather_begin_def weather_resume_def and_then_def split_beta)

text \<open>What a 200 answer that made upstream requests went through.\<close>

lemma weather_route_success:
  assumes "weather_route rt fetch q t_get t_set c = (r, c', calls)"
    and "status r = 200" and "calls \<noteq> []"
  shows "\<exists>city geo la lo cur fc n.
           city_param q = Inr city \<and> city \<noteq> []
           \<and> \<not> truthy (fst (getCache (cacheKey rt city) t_get c))
           \<and> geocode fetch city = Inr geo
           \<and> coordinates rt geo = Inr (la, lo)
           \<and> fetch_weather fetch la lo = Inr (cur, fc)
           \<and> normalize geo cur fc = Inr n
           \<and> r = res_json n
           \<and> c' = setCache (cacheKey rt city) n t_set (snd (getCache (cacheKey rt city) t_get c))
           \<and> calls = [Geocode city, Current la lo, Forecast la lo]"
proof (cases "city_param q")
  case bad: (Inl e)
  have "status (fst (weather_route rt fetch q t_get t_set c)) \<noteq> 200
      \<or> snd (snd (weather_route rt fetch q t_get t_set c)) = []"
    by (simp add: weather_route_bad_param [OF bad])
  with assms show ?thesis by simp
next
  case city: (Inr city)
  show ?thesis
  proof (cases "city = []")
    case True
    with city weather_route_blank [of q rt fetch t_get t_set c] assms show ?thesis by simp
  next
    case nb: False
    show ?thesis
    proof (cases "truthy (fst (getCache (cacheKey rt city) t_get c))")
      case True
      have "status (fst (weather_route rt fetch q t_get t_set c)) \<noteq> 200
          \<or> snd (snd (weather_route rt fetch q t_get t_set c)) = []"
        by (simp add: weather_route_hit [OF city nb True])
      with assms show ?thesis by simp
    next
      case miss: False
      show ?thesis
      proof (cases "geocode fetch city")
        case (Inl e)
        have "status (fst (weather_route rt fetch q t_get t_set c)) \<noteq> 200
            \<or> snd (snd (weather_route rt fetch q t_get t_set c)) = []"
          by (simp add: weather_route_geocode_failed [OF city nb miss Inl])
        with assms show ?thesis by simp
      next
        case geo: (Inr geo)
        show ?thesis
        proof (cases "truthy (opt_get geo ''length'')")
          case False
          have "status (fst (weather_route rt fetch q t_get t_set c)) \<noteq> 200
              \<or> snd (snd (weather_route rt fetch q t_get t_set c)) = []"
            by (simp add: weather_route_not_found [OF city nb miss geo False])
          with assms show ?thesis by simp
        next
          case len: True
          show ?thesis
          proof (cases "coordinates rt geo")
            case (Inl e)
            have "status (fst (weather_route rt fetch q t_get t_set c)) \<noteq> 200
                \<or> snd (snd (weather_route rt fetch q t_get t_set c)) = []"
              by (simp add: weather_route_no_coordinates [OF city nb miss geo len Inl])
            with assms show ?thesis by simp
          next
            case (Inr lalo)
            then obtain la lo where co: "coordinates rt geo = Inr (la, lo)"
              by (cases lalo) simp
            show ?thesis
            proof (cases "fetch_weather fetch la lo")
              case (Inl e)
              have "status (fst (weather_route rt fetch q t_get t_set c)) \<noteq> 200
                  \<or> snd (snd (weather_route rt fetch q t_get t_set c)) = []"
                by (simp add: weather_route_fetch_failed [OF city nb miss geo len co Inl])
              with assms show ?thesis by simp
            next
              case (Inr curfc)
              then obtain cur fc where fw: "fetch_weather fetch la lo = Inr (cur, fc)"
                by (cases curfc) simp
              show ?thesis
              proof (cases "normalize geo cur fc")
                case (Inl e)
                have "status (fst (weather_route rt fetch q t_get t_set c)) \<noteq> 200
                    \<or> snd (snd (weather_route rt fetch q t_get t_set c)) = []"
                  by (simp add: weather_route_normalize_failed [OF city nb miss geo len co fw Inl])
                with assms show ?thesis by simp
              next
                case (Inr n)
                from weather_route_fetched [OF city nb miss geo len co fw Inr] assms
                have "r = res_json n"
                  and "c' = setCache (cacheKey rt city) n t_set
                              (snd (getCache (cacheKey rt city) t_get c))"
                  and "calls = [Geocode city, Current la lo, Forecast la lo]"
                  by simp_all
                with city nb miss geo co fw Inr show ?thesis by blast
              qed
            qed
          qed
        qed
      qed
    qed
  qed
qed
lemma call_failed_geocode:
  "call_failed fetch (Geocode city) \<Longrightarrow> \<exists>e. geocode fetch city = Inl e"
  by (auto simp: call_failed_def geocode_def and_then_def split: sum.splits)

lemma call_failed_weather:
  "call_failed fetch (Current la lo) \<or> call_failed fetch (Forecast la lo)
     \<Longrightarrow> \<exists>e. fetch_weather fetch la lo = Inl e"
  by (auto simp: call_failed_def fetch_weather_def and_then_def split: sum.splits)

lemma reduce_step_total:
  "has_dt_txt item \<Longrightarrow> \<exists>days. reduce_step acc item = Inr days"
  by (auto simp: has_dt_txt_def reduce_step_def get_def and_then_def split: jsval.splits)

lemma reduce_days_total:
  "list_all has_dt_txt items \<Longrightarrow> \<exists>days. reduce_days acc items = Inr days"
proof (induction items arbitrary: acc)
  case Nil
  then show ?case by simp
next
  case (Cons item items)
  then have "has_dt_txt item" and rest: "list_all has_dt_txt items" by simp_all
  from reduce_step_total [OF this(1)] obtain acc' where "reduce_step acc item = Inr acc'"
    by blast
  with Cons.IH [OF rest, of acc'] show ?case by simp
qed

lemma normalized_forecast_total:
  assumes "has_forecast_list forecast"
  shows "\<exists>days. normalized_forecast forecast = Inr days"
proof -
  from assms obtain items where
    "\<not> nullish forecast" "js_prop forecast ''list'' = JArr items" "list_all has_dt_txt items"
    by (auto simp: has_forecast_list_def split: jsval.splits)
  with reduce_days_total [of items "[]"] show ?thesis
    by (auto simp: normalized_forecast_def get_def and_then_def)
qed

lemma normalized_current_eq:
  "\<not> nullish current \<Longrightarrow>
     normalized_current current
       = Inr (JObj
           [(''description'',
               js_or (opt_get (opt_at0 (js_prop current ''weather'')) ''description'') (JStr [])),
            (''temp'', opt_get (js_prop current ''main'') ''temp''),
            (''feels_like'', opt_get (js_prop current ''main'') ''feels_like''),
            (''humidity'', opt_get (js_prop current ''main'') ''humidity''),
            (''wind_speed'', opt_get (js_prop current ''wind'') ''speed''),
            (''clouds'', opt_get (js_prop current ''clouds'') ''all''),
            (''dt'', js_prop current ''dt'')])"
  by (simp add: normalized_current_def get_def and_then_def)

lemma normalized_current_Inr:
  "normalized_current current = Inr v \<Longrightarrow> \<not> nullish current"
  by (auto simp: normalized_current_def get_def and_then_def split: if_splits)

lemma normalize_total:
  assumes "\<not> nullish current" "has_forecast_list forecast"
  shows "\<exists>n. normalize geo current forecast = Inr n"
  using normalized_current_eq [OF assms(1)] normalized_forecast_total [OF assms(2)]
  by (auto simp: normalize_def and_then_def)

lemma normalize_Inr:
  assumes "normalize geo current forecast = Inr n"
  shows "\<exists>cur days. normalized_current current = Inr cur
           \<and> normalized_forecast forecast = Inr days
           \<and> n = JObj [(''location'', normalized_location (opt_at0 geo)),
                       (''current'', cur), (''forecast'', JArr days)]"
  using assms unfolding normalize_def and_then_Inr_iff by auto


lemma fetch_weather_Inr:
  assumes "fetch_weather fetch la lo = Inr (cur, fc)"
  shows "\<exists>resp. fetch (Current la lo) = Inr resp \<and> resp_json resp = Inr cur"
  using assms unfolding fetch_weather_def
  by (auto simp: and_then_Inr_iff split: if_splits)

lemma weather_route_outcomes:
  "fst (weather_route rt fetch q t_get t_set c) = server_error
   \<or> fst (weather_route rt fetch q t_get t_set c)
       = res_status_json 400 (error_body ''city is required'')
   \<or> fst (weather_route rt fetch q t_get t_set c)
       = res_status_json 404 (error_body ''City not found'')
   \<or> status (fst (weather_route rt fetch q t_get t_set c)) = 200"
  by (simp add: weather_route_def weather_begin_def weather_resume_def split_beta split: sum.split)

text \<open>The current conditions of a 200 answer that made upstream requests.\<close>

lemma weather_route_current:
  assumes "weather_route rt fetch q t_get t_set c = (r, c', calls)"
    and "status r = 200" and "calls \<noteq> []"
  shows "\<exists>la lo resp cur.
           fetch (Current la lo) = Inr resp \<and> resp_json resp = Inr cur
           \<and> js_prop (body r) ''current''
               = JObj
                   [(''description'',
                       js_or (opt_get (opt_at0 (js_prop cur ''weather'')) ''description'')
                         (JStr [])),
                    (''temp'', opt_get (js_prop cur ''main'') ''temp''),
                    (''feels_like'', opt_get (js_prop cur ''main'') ''feels_like''),
                    (''humidity'', opt_get (js_prop cur ''main'') ''humidity''),
                    (''wind_speed'', opt_get (js_prop cur ''wind'') ''speed''),
                    (''clouds'', opt_get (js_prop cur ''clouds'') ''all''),
                    (''dt'', js_prop cur ''dt'')]"
proof -
  from weather_route_success [OF assms] obtain geo la lo cur fc n where
    fw: "fetch_weather fetch la lo = Inr (cur, fc)" and
    n: "normalize geo cur fc = Inr n" and r: "r = res_json n"
    by blast
  from fetch_weather_Inr [OF fw] obtain resp where
    resp: "fetch (Current la lo) = Inr resp" "resp_json resp = Inr cur"
    by blast
  from normalize_Inr [OF n] obtain nc days where
    nc: "normalized_current cur = Inr nc" and
    obj: "n = JObj [(''location'', normalized_location (opt_at0 geo)),
                    (''current'', nc), (''forecast'', JArr days)]"
    by blast
  from nc normalized_current_eq [OF normalized_current_Inr [OF nc]]
  have "js_prop (body r) ''current''
               = JObj
                   [(''description'',
                       js_or (opt_get (opt_at0 (js_prop cur ''weather'')) ''description'')
                         (JStr [])),
                    (''temp'', opt_get (js_prop cur ''main'') ''temp''),
                    (''feels_like'', opt_get (js_prop cur ''main'') ''feels_like''),
                    (''humidity'', opt_get (js_prop cur ''main'') ''humidity''),
                    (''wind_speed'', opt_get (js_prop cur ''wind'') ''speed''),
                    (''clouds'', opt_get (js_prop cur ''clouds'') ''all''),
                    (''dt'', js_prop cur ''dt'')]"
    by (simp add: r obj)
  with resp show ?thesis by (intro exI conjI)
qed



lemma example_resume:
  "\<exists>n. normalize example_geo example_weather (JObj [(''list'', JArr example_items)]) = Inr n
     \<and> (\<forall>city t_set c.
           weather_resume example_builtins example_services city t_set c
             = (res_json n, setCache (cacheKey example_builtins city) n t_set c,
                [Geocode city, Current ''48'' ''2'', Forecast ''48'' ''2'']))"
proof -
  let ?fc = "JObj [(''list'', JArr example_items)]"
  have geo: "geocode example_services city = Inr example_geo" for city
    by (simp add: geocode_def example_services_def example_upstream_def json_response_def
        and_then_def)
  have len: "truthy (opt_get example_geo ''length'')"
    by (simp add: example_geo_def opt_get_def nullish_def)
  have co: "coordinates example_builtins example_geo = Inr (''48'', ''2'')"
    by (simp add: coordinates_def example_geo_def get_def nullish_def and_then_def
        example_builtins_def)
  have fw: "fetch_weather example_services ''48'' ''2'' = Inr (example_weather, ?fc)"
    by (simp add: fetch_weather_def example_services_def example_upstream_def
        json_response_def and_then_def)
  have "\<not> nullish example_weather"
    by (simp add: example_weather_def nullish_def)
  moreover have "has_forecast_list ?fc"
    by (simp add: has_forecast_list_def has_dt_txt_def nullish_def example_items_def
        example_item_def)
  ultimately obtain n where n: "normalize example_geo example_weather ?fc = Inr n"
    using normalize_total by blast
  have "weather_resume example_builtins example_services city t_set c
          = (res_json n, setCache (cacheKey example_builtins city) n t_set c,
             [Geocode city, Current ''48'' ''2'', Forecast ''48'' ''2''])" for city t_set c
    by (simp add: weather_resume_def geo len co fw n and_then_def)
  with n show ?thesis by (intro exI conjI allI)
qed

lemma example_keys:
  "cacheKey example_builtins ''Paris'' = ''wx:paris''"
  "cacheKey example_builtins ''PARIS'' = ''wx:paris''"
  "cacheKey example_builtins ''paris'' = ''wx:paris''"
  by (simp_all add: cacheKey_def toLowerCase_def lower_char_def is_ascii_def less_char_def)

lemma example_begin:
  "weather_begin example_builtins (JStr ''Paris '') 1000 Map.empty
     = (Awaiting ''Paris'', Map.empty)"
  "weather_begin example_builtins (JStr ''Paris'') 1000 Map.empty
     = (Awaiting ''Paris'', Map.empty)"
  "weather_begin example_builtins (JStr ''paris'') 1001 Map.empty
     = (Awaiting ''paris'', Map.empty)"
  by (simp_all add: weather_begin_def city_param_def js_or_def trim_eval getCache_def)

lemma example_first_eq:
  "\<exists>n. normalize example_geo example_weather (JObj [(''list'', JArr example_items)]) = Inr n
     \<and> example_first
         = (res_json n, setCache ''wx:paris'' n 1200 Map.empty,
            [Geocode ''Paris'', Current ''48'' ''2'', Forecast ''48'' ''2''])"
proof -
  from example_resume obtain n where
    n: "normalize example_geo example_weather (JObj [(''list'', JArr example_items)]) = Inr n"
    and resume: "\<And>city t_set c.
           weather_resume example_builtins example_services city t_set c
             = (res_json n, setCache (cacheKey example_builtins city) n t_set c,
                [Geocode city, Current ''48'' ''2'', Forecast ''48'' ''2''])"
    by blast
  have "example_first
         = (res_json n, setCache ''wx:paris'' n 1200 Map.empty,
            [Geocode ''Paris'', Current ''48'' ''2'', Forecast ''48'' ''2''])"
    by (simp add: example_first_def weather_route_def example_begin resume example_keys)
  with n show ?thesis by (intro exI conjI)
qed

text \<open>
  Claim C4, as amended. A request whose \<^verbatim>\<open>city\<close> parameter is missing or blank after
  trimming is answered with 400 and no upstream request; a repeated or nested parameter
  (an array or an object) with 500 and no upstream request. For a city text that is not
  blank: a cached entry is answered with 200 and no upstream request; otherwise a
  geocoding request that fails at the transport or HTTP level gives 500, a geocoding
  answer with an empty array gives 404, a current or forecast request that fails at the
  transport or HTTP level gives 500, and when all three requests succeed and the payloads
  can be walked through (the current body is not \<^verbatim>\<open>null\<close>, the forecast body has a
  \<^verbatim>\<open>list\<close> array whose entries have a string \<^verbatim>\<open>dt_txt\<close>) the answer is 200 with the
  normalized weather, which is stored in the cache. Every answer other than 200 is 400, 404
  or 500 and has a body of the shape \<^verbatim>\<open>{error: message}\<close>.
\<close>

theorem weather_route_statuses:
  "(q = JUndefined \<or> (\<exists>s. q = JStr s \<and> trim s = []) \<longrightarrow>
      weather_route rt fetch q t_get t_set c
        = (res_status_json 400 (error_body ''city is required''), c, []))
   \<and> ((\<exists>xs. q = JArr xs) \<or> (\<exists>kvs. q = JObj kvs) \<longrightarrow>
      weather_route rt fetch q t_get t_set c = (server_error, c, []))
   \<and> (trim s \<noteq> [] \<and> truthy (fst (getCache (cacheKey rt (trim s)) t_get c)) \<longrightarrow>
      weather_route rt fetch (JStr s) t_get t_set c
        = (res_json (fst (getCache (cacheKey rt (trim s)) t_get c)),
           snd (getCache (cacheKey rt (trim s)) t_get c), []))
   \<and> (trim s \<noteq> [] \<and> \<not> truthy (fst (getCache (cacheKey rt (trim s)) t_get c))
       \<and> call_failed fetch (Geocode (trim s)) \<longrightarrow>
      fst (weather_route rt fetch (JStr s) t_get t_set c) = server_error)
   \<and> (trim s \<noteq> [] \<and> \<not> truthy (fst (getCache (cacheKey rt (trim s)) t_get c))
       \<and> geocode fetch (trim s) = Inr (JArr []) \<longrightarrow>
      fst (weather_route rt fetch (JStr s) t_get t_set c)
        = res_status_json 404 (error_body ''City not found''))
   \<and> (trim s \<noteq> [] \<and> \<not> truthy (fst (getCache (cacheKey rt (trim s)) t_get c))
       \<and> geocode fetch (trim s) = Inr geo \<and> truthy (opt_get geo ''length'')
       \<and> coordinates rt geo = Inr (la, lo)
       \<and> (call_failed fetch (Current la lo) \<or> call_failed fetch (Forecast la lo)) \<longrightarrow>
      fst (weather_route rt fetch (JStr s) t_get t_set c) = server_error)
   \<and> (trim s \<noteq> [] \<and> \<not> truthy (fst (getCache (cacheKey rt (trim s)) t_get c))
       \<and> geocode fetch (trim s) = Inr geo \<and> truthy (opt_get geo ''length'')
       \<and> coordinates rt geo = Inr (la, lo)
       \<and> fetch_weather fetch la lo = Inr (cur, fc)
       \<and> \<not> nullish cur \<and> has_forecast_list fc \<longrightarrow>
      (\<exists>n. normalize geo cur fc = Inr n
         \<and> weather_route rt fetch (JStr s) t_get t_set c
             = (res_json n,
                setCache (cacheKey rt (trim s)) n t_set
                  (snd (getCache (cacheKey rt (trim s)) t_get c)),
                [Geocode (trim s), Current la lo, Forecast la lo])))
   \<and> (status (fst (weather_route rt fetch q t_get t_set c)) \<noteq> 200 \<longrightarrow>
      status (fst (weather_route rt fetch q t_get t_set c)) \<in> {400, 404, 500}
      \<and> (\<exists>msg. body (fst (weather_route rt fetch q t_get t_set c)) = error_body msg))"
proof -
  let ?G = "getCache (cacheKey rt (trim s)) t_get c"
  have city: "city_param (JStr s) = Inr (trim s)" by (rule city_param_cases(2))
  have blank: "weather_route rt fetch q t_get t_set c
        = (res_status_json 400 (error_body ''city is required''), c, [])"
    if "q = JUndefined \<or> (\<exists>s. q = JStr s \<and> trim s = [])"
    using that by (auto simp: city_param_cases intro!: weather_route_blank)
  have bad: "weather_route rt fetch q t_get t_set c = (server_error, c, [])"
    if "(\<exists>xs. q = JArr xs) \<or> (\<exists>kvs. q = JObj kvs)"
    using that by (auto simp: city_param_cases intro!: weather_route_bad_param)
  have hit: "weather_route rt fetch (JStr s) t_get t_set c
        = (res_json (fst ?G), snd ?G, [])"
    if "trim s \<noteq> [] \<and> truthy (fst ?G)"
    using that weather_route_hit [OF city] by simp
  have geo_failed: "fst (weather_route rt fetch (JStr s) t_get t_set c) = server_error"
    if "trim s \<noteq> [] \<and> \<not> truthy (fst ?G) \<and> call_failed fetch (Geocode (trim s))"
  proof -
    from that call_failed_geocode obtain e where "geocode fetch (trim s) = Inl e" by blast
    with that weather_route_geocode_failed [OF city, of rt t_get c fetch e t_set]
    show ?thesis by simp
  qed
  have not_found: "fst (weather_route rt fetch (JStr s) t_get t_set c)
        = res_status_json 404 (error_body ''City not found'')"
    if "trim s \<noteq> [] \<and> \<not> truthy (fst ?G) \<and> geocode fetch (trim s) = Inr (JArr [])"
    using that weather_route_not_found [OF city, of rt t_get c fetch "JArr []" t_set]
    by (simp add: opt_get_def nullish_def)
  have fetch_failed: "fst (weather_route rt fetch (JStr s) t_get t_set c) = server_error"
    if "trim s \<noteq> [] \<and> \<not> truthy (fst ?G)
       \<and> geocode fetch (trim s) = Inr geo \<and> truthy (opt_get geo ''length'')
       \<and> coordinates rt geo = Inr (la, lo)
       \<and> (call_failed fetch (Current la lo) \<or> call_failed fetch (Forecast la lo))"
  proof -
    from that call_failed_weather obtain e where "fetch_weather fetch la lo = Inl e"
      by blast
    with that weather_route_fetch_failed [OF city, of rt t_get c fetch geo la lo e t_set]
    show ?thesis by simp
  qed
  have fetched: "\<exists>n. normalize geo cur fc = Inr n
         \<and> weather_route rt fetch (JStr s) t_get t_set c
             = (res_json n, setCache (cacheKey rt (trim s)) n t_set (snd ?G),
                [Geocode (trim s), Current la lo, Forecast la lo])"
    if "trim s \<noteq> [] \<and> \<not> truthy (fst ?G)
       \<and> geocode fetch (trim s) = Inr geo \<and> truthy (opt_get geo ''length'')
       \<and> coordinates rt geo = Inr (la, lo)
       \<and> fetch_weather fetch la lo = Inr (cur, fc)
       \<and> \<not> nullish cur \<and> has_forecast_list fc"
  proof -
    from that normalize_total obtain n where n: "normalize geo cur fc = Inr n" by blast
    with that weather_route_fetched [OF city, of rt t_get c fetch geo la lo cur fc n t_set]
    have "weather_route rt fetch (JStr s) t_get t_set c
             = (res_json n, setCache (cacheKey rt (trim s)) n t_set (snd ?G),
                [Geocode (trim s), Current la lo, Forecast la lo])"
      by simp
    with n show ?thesis by (intro exI conjI)
  qed
  have errors: "status (fst (weather_route rt fetch q t_get t_set c)) \<in> {400, 404, 500}
      \<and> (\<exists>msg. body (fst (weather_route rt fetch q t_get t_set c)) = error_body msg)"
    if "status (fst (weather_route rt fetch q t_get t_set c)) \<noteq> 200"
    using that weather_route_outcomes [of rt fetch q t_get t_set c]
    by (elim disjE) auto
  show ?thesis
    by (rule conjI [OF impI [OF blank] conjI [OF impI [OF bad] conjI [OF impI [OF hit]
          conjI [OF impI [OF geo_failed] conjI [OF impI [OF not_found]
          conjI [OF impI [OF fetch_failed] conjI [OF impI [OF fetched]
          impI [OF errors]]]]]]]])
qed
text \<open>
  Counterexample to claim C4 as stated (``otherwise the status is 200''): a request for
  Paris on an empty cache, all three upstream requests succeed and geocoding has a match,
  but the forecast body has no \<^verbatim>\<open>list\<close>; \<^verbatim>\<open>forecast.list.reduce\<close> throws and the answer
  is 500. Likewise a request with the parameter given twice
  (\<^verbatim>\<open>?city=Paris&city=Rome\<close>, which the query parser hands over as an array): the
  array has no \<^verbatim>\<open>trim\<close>, and the answer is 500 although the services are healthy and no
  request to them is made.
\<close>

theorem weather_route_otherwise_counterexample:
  "trim ''Paris'' \<noteq> []
   \<and> \<not> call_failed (example_upstream listless_forecast) (Geocode ''Paris'')
   \<and> geocode (example_upstream listless_forecast) ''Paris'' = Inr example_geo
   \<and> \<not> call_failed (example_upstream listless_forecast) (Current ''48'' ''2'')
   \<and> \<not> call_failed (example_upstream listless_forecast) (Forecast ''48'' ''2'')
   \<and> weather_route example_builtins (example_upstream listless_forecast) (JStr ''Paris'')
         1000 1200 Map.empty
       = (server_error, Map.empty,
          [Geocode ''Paris'', Current ''48'' ''2'', Forecast ''48'' ''2''])
   \<and> weather_route example_builtins example_services
         (JArr [JStr ''Paris'', JStr ''Rome'']) 1000 1200 Map.empty
       = (server_error, Map.empty, [])
   \<and> status server_error = 500"
proof -
  let ?up = "example_upstream listless_forecast"
  have twice: "weather_route example_builtins example_services
         (JArr [JStr ''Paris'', JStr ''Rome'']) 1000 1200 Map.empty
       = (server_error, Map.empty, [])"
    by (rule weather_route_bad_param [OF city_param_cases(3)])
  have t: "trim ''Paris'' \<noteq> []"
    by (simp add: trim_eval)
  have city: "city_param (JStr ''Paris'') = Inr ''Paris''"
    by (simp add: city_param_def js_or_def trim_eval)
  have ok: "\<not> call_failed ?up (Geocode ''Paris'')" "\<not> call_failed ?up (Current ''48'' ''2'')"
    "\<not> call_failed ?up (Forecast ''48'' ''2'')"
    by (simp_all add: call_failed_def example_upstream_def json_response_def)
  have miss: "\<not> truthy (fst (getCache (cacheKey example_builtins ''Paris'') 1000 Map.empty))"
    by (simp add: getCache_def)
  have geo: "geocode ?up ''Paris'' = Inr example_geo"
    by (simp add: geocode_def example_upstream_def json_response_def and_then_def)
  have len: "truthy (opt_get example_geo ''length'')"
    by (simp add: example_geo_def opt_get_def nullish_def)
  have co: "coordinates example_builtins example_geo = Inr (''48'', ''2'')"
    by (simp add: coordinates_def example_geo_def get_def nullish_def and_then_def
        example_builtins_def)
  have fw: "fetch_weather ?up ''48'' ''2'' = Inr (example_weather, listless_forecast)"
    by (simp add: fetch_weather_def example_upstream_def json_response_def and_then_def)
  have "normalized_forecast listless_forecast = Inl TypeError"
    by (simp add: normalized_forecast_def listless_forecast_def get_def nullish_def
        and_then_def)
  then have n: "normalize example_geo example_weather listless_forecast = Inl TypeError"
    by (simp add: normalize_def normalized_current_def example_weather_def get_def
        nullish_def and_then_def)
  have "weather_route example_builtins ?up (JStr ''Paris'') 1000 1200 Map.empty
       = (server_error, Map.empty,
          [Geocode ''Paris'', Current ''48'' ''2'', Forecast ''48'' ''2''])"
    using weather_route_normalize_failed [OF city _ miss geo len co fw n, of 1200]
    by (simp add: getCache_def)
  with t ok geo twice show ?thesis by (simp only: status_server_error simp_thms)
qed

text \<open>
  Witness for the amended claim: a city of spaces, or of a single no-break space, gives
  400 without a request; with the services unreachable a request for Paris gives 500;
  the example request gives 200.
\<close>

theorem weather_route_statuses_witness:
  "weather_route example_builtins unreachable (JStr ''   '') 0 0 Map.empty
     = (res_status_json 400 (error_body ''city is required''), Map.empty, [])
   \<and> weather_route example_builtins unreachable (JStr [CHR 0xC2, CHR 0xA0]) 0 0 Map.empty
     = (res_status_json 400 (error_body ''city is required''), Map.empty, [])
   \<and> fst (weather_route example_builtins unreachable (JStr ''Paris'') 0 0 Map.empty)
       = server_error
   \<and> status (fst example_first) = 200"
proof -
  have a: "weather_route example_builtins unreachable (JStr ''   '') 0 0 Map.empty
     = (res_status_json 400 (error_body ''city is required''), Map.empty, [])"
    by (rule weather_route_statuses [THEN conjunct1, THEN mp])
      (simp add: trim_eval)
  have a': "weather_route example_builtins unreachable (JStr [CHR 0xC2, CHR 0xA0]) 0 0
       Map.empty
     = (res_status_json 400 (error_body ''city is required''), Map.empty, [])"
    by (rule weather_route_statuses [THEN conjunct1, THEN mp])
      (simp add: trim_eval)
  have b: "fst (weather_route example_builtins unreachable (JStr ''Paris'') 0 0 Map.empty)
       = server_error"
    by (rule weather_route_statuses
          [THEN conjunct2, THEN conjunct2, THEN conjunct2, THEN conjunct1, THEN mp])
      (simp add: trim_eval getCache_def call_failed_def unreachable_def)
  from example_first_eq obtain n where
    first: "example_first
       = (res_json n, setCache ''wx:paris'' n 1200 Map.empty,
          [Geocode ''Paris'', Current ''48'' ''2'', Forecast ''48'' ''2''])"
    by blast
  have c: "status (fst example_first) = 200" by (simp add: first)
  show ?thesis by (intro conjI a a' b c)
qed




text \<open>
  Claim C8, as amended. For every weather fetch that succeeds, the normalized current
  conditions are the record of the seven fields \<^verbatim>\<open>description\<close>, \<^verbatim>\<open>temp\<close>,
  \<^verbatim>\<open>feels_like\<close>, \<^verbatim>\<open>humidity\<close>, \<^verbatim>\<open>wind_speed\<close>, \<^verbatim>\<open>clouds\<close> and \<^verbatim>\<open>dt\<close> (the
  observation time), each copied from the current-conditions body without a default:
  absent upstream data yields \<^verbatim>\<open>undefined\<close>, and the empty string for the description.
\<close>

theorem current_conditions_fields:
  assumes "weather_route rt fetch q t_get t_set c = (r, c', calls)"
    and "status r = 200" and "calls \<noteq> []"
  shows "\<exists>la lo resp cur.
           fetch (Current la lo) = Inr resp \<and> resp_json resp = Inr cur
           \<and> object_keys (js_prop (body r) ''current'')
               = [''description'', ''temp'', ''feels_like'', ''humidity'', ''wind_speed'',
                  ''clouds'', ''dt'']
           \<and> js_prop (js_prop (body r) ''current'') ''description''
               = js_or (opt_get (opt_at0 (js_prop cur ''weather'')) ''description'') (JStr [])
           \<and> js_prop (js_prop (body r) ''current'') ''temp''
               = opt_get (js_prop cur ''main'') ''temp''
           \<and> js_prop (js_prop (body r) ''current'') ''feels_like''
               = opt_get (js_prop cur ''main'') ''feels_like''
           \<and> js_prop (js_prop (body r) ''current'') ''humidity''
               = opt_get (js_prop cur ''main'') ''humidity''
           \<and> js_prop (js_prop (body r) ''current'') ''wind_speed''
               = opt_get (js_prop cur ''wind'') ''speed''
           \<and> js_prop (js_prop (body r) ''current'') ''clouds''
               = opt_get (js_prop cur ''clouds'') ''all''
           \<and> js_prop (js_prop (body r) ''current'') ''dt'' = js_prop cur ''dt''
           \<and> (js_prop cur ''weather'' = JUndefined \<longrightarrow>
                 js_prop (js_prop (body r) ''current'') ''description'' = JStr [])
           \<and> (js_prop cur ''main'' = JUndefined \<longrightarrow>
                 js_prop (js_prop (body r) ''current'') ''temp'' = JUndefined
                 \<and> js_prop (js_prop (body r) ''current'') ''feels_like'' = JUndefined
                 \<and> js_prop (js_prop (body r) ''current'') ''humidity'' = JUndefined)
           \<and> (js_prop cur ''wind'' = JUndefined \<longrightarrow>
                 js_prop (js_prop (body r) ''current'') ''wind_speed'' = JUndefined)
           \<and> (js_prop cur ''clouds'' = JUndefined \<longrightarrow>
                 js_prop (js_prop (body r) ''current'') ''clouds'' = JUndefined)"
proof -
  from weather_route_current [OF assms] obtain la lo resp cur where
    resp: "fetch (Current la lo) = Inr resp" "resp_json resp = Inr cur" and
    obj: "js_prop (body r) ''current''
               = JObj
                   [(''description'',
                       js_or (opt_get (opt_at0 (js_prop cur ''weather'')) ''description'')
                         (JStr [])),
                    (''temp'', opt_get (js_prop cur ''main'') ''temp''),
                    (''feels_like'', opt_get (js_prop cur ''main'') ''feels_like''),
                    (''humidity'', opt_get (js_prop cur ''main'') ''humidity''),
                    (''wind_speed'', opt_get (js_prop cur ''wind'') ''speed''),
                    (''clouds'', opt_get (js_prop cur ''clouds'') ''all''),
                    (''dt'', js_prop cur ''dt'')]"
    by blast
  show ?thesis
    apply (rule exI [of _ la], rule exI [of _ lo], rule exI [of _ resp], rule exI [of _ cur])
    apply (simp only: obj resp)
    apply (simp add: object_keys_def opt_get_def nullish_def js_or_def)
    done
qed

text \<open>
  Counterexample to claim C8 as stated (a field \<^verbatim>\<open>observedAt\<close>): the example request
  succeeds, and its normalized current conditions have the key \<^verbatim>\<open>dt\<close> and no key
  \<^verbatim>\<open>observedAt\<close>.
\<close>

theorem current_conditions_counterexample:
  "status (fst example_first) = 200
   \<and> object_keys (js_prop (body (fst example_first)) ''current'')
       = [''description'', ''temp'', ''feels_like'', ''humidity'', ''wind_speed'', ''clouds'',
          ''dt'']
   \<and> ''observedAt'' \<notin> set (object_keys (js_prop (body (fst example_first)) ''current''))
   \<and> js_prop (js_prop (body (fst example_first)) ''current'') ''observedAt'' = JUndefined
   \<and> js_prop (js_prop (body (fst example_first)) ''current'') ''dt'' = JNum (Fin 1714600000)"
proof -
  from example_first_eq obtain n where
    n: "normalize example_geo example_weather (JObj [(''list'', JArr example_items)]) = Inr n"
    and first: "example_first
         = (res_json n, setCache ''wx:paris'' n 1200 Map.empty,
            [Geocode ''Paris'', Current ''48'' ''2'', Forecast ''48'' ''2''])"
    by blast
  from normalize_Inr [OF n] obtain nc days where
    nc: "normalized_current example_weather = Inr nc" and
    obj: "n = JObj [(''location'', normalized_location (opt_at0 example_geo)),
                    (''current'', nc), (''forecast'', JArr days)]"
    by blast
  from nc have cur: "js_prop (body (fst example_first)) ''current''
      = JObj [(''description'', JStr ''clear sky''), (''temp'', JNum (Fin 21)),
              (''feels_like'', JNum (Fin 20)), (''humidity'', JNum (Fin 40)),
              (''wind_speed'', JNum (Fin 3)), (''clouds'', JUndefined),
              (''dt'', JNum (Fin 1714600000))]"
    by (simp add: first obj normalized_current_def example_weather_def get_def nullish_def
        and_then_def opt_get_def js_or_def)
  have "status (fst example_first) = 200" by (simp add: first)
  then show ?thesis
    by (simp add: cur object_keys_def)
qed

text \<open>
  Witness for the amended claim: in the example answer the observation time is under
  \<^verbatim>\<open>dt\<close>, and the cloud cover, absent upstream, is \<^verbatim>\<open>undefined\<close>.
\<close>

theorem current_conditions_fields_witness:
  "status (fst example_first) = 200
   \<and> snd (snd example_first) \<noteq> []
   \<and> js_prop example_weather ''clouds'' = JUndefined
   \<and> js_prop (js_prop (body (fst example_first)) ''current'') ''clouds'' = JUndefined
   \<and> js_prop (js_prop (body (fst example_first)) ''current'') ''dt'' = JNum (Fin 1714600000)"
proof -
  obtain r c' calls where first: "example_first = (r, c', calls)"
    by (cases example_first)
  from example_first_eq obtain n where
    "example_first
       = (res_json n, setCache ''wx:paris'' n 1200 Map.empty,
          [Geocode ''Paris'', Current ''48'' ''2'', Forecast ''48'' ''2''])"
    by blast
  then have ok: "status r = 200" and calls: "calls \<noteq> []"
    by (simp_all add: first)
  from current_conditions_fields [OF first [unfolded example_first_def] ok calls]
  obtain la lo resp cur where
    resp: "example_services (Current la lo) = Inr resp"
      "resp_json resp = Inr cur" and
    clouds: "js_prop cur ''clouds'' = JUndefined \<longrightarrow>
                 js_prop (js_prop (body r) ''current'') ''clouds'' = JUndefined" and
    dt: "js_prop (js_prop (body r) ''current'') ''dt'' = js_prop cur ''dt''"
    by blast
  from resp have cur: "cur = example_weather"
    by (auto simp: example_services_def example_upstream_def json_response_def)
  have absent: "js_prop example_weather ''clouds'' = JUndefined"
    and time: "js_prop example_weather ''dt'' = JNum (Fin 1714600000)"
    by (simp_all add: example_weather_def)
  from clouds dt ok calls absent time show ?thesis
    by (simp add: first cur)
qed

end
